theory Spec2Isabelle
  imports Complex_Main "HOL-Library.Sublist"
begin

section \<open>The event bus (class EventBus of utils.js)\<close>

text \<open>
  A JavaScript call either returns or throws.  Function objects are compared by identity
  (\<open>indexOf\<close> uses \<open>===\<close>), so every function carries a reference: \<open>UserRef n\<close> for a
  callback handed to the bus by its client, \<open>OnceRef n\<close> for the n-th closure that
  \<open>once\<close> has created.
\<close>

datatype outcome = Returned | Thrown

datatype ref = UserRef nat | OnceRef nat

text \<open>
  What a callback does when it is called.  A client callback is a reference and a body, a
  sequence of statements: it may throw, subscribe a callback, unsubscribe a reference, or
  act on the rest of the program (the world \<open>'w\<close>, which does not contain the bus) with the
  arguments of the call.  \<open>OnceCallback n event callback\<close> is the closure
  \<^verbatim>\<open>(...args) => { callback(...args); this.off(event, onceCallback); }\<close>
  that \<open>once\<close> builds.  Callbacks that emit from inside a callback are not modelled.
\<close>

datatype ('a, 'w) callback =
    Callback nat "('a, 'w) stmt list"
  | OnceCallback nat string "('a, 'w) callback"
and ('a, 'w) stmt =
    Throw
  | BusOn string "('a, 'w) callback"
  | BusOff string ref
  | Effect "'a list \<Rightarrow> 'w \<Rightarrow> outcome \<times> 'w"

fun ref_of :: "('a, 'w) callback \<Rightarrow> ref" where
  "ref_of (Callback n body) = UserRef n"
| "ref_of (OnceCallback n event callback) = OnceRef n"

text \<open>
  The state: \<open>events\<close> is the bus's \<open>Map\<close> from event name to the array of callbacks,
  \<open>fresh\<close> numbers the closures created by \<open>once\<close>, \<open>calls\<close> records every function
  call (reference and arguments) in order, \<open>console\<close> records the references whose
  error \<open>emit\<close> has logged, and \<open>world\<close> is the rest of the program.
\<close>

record ('a, 'w) heap =
  events :: "string \<rightharpoonup> ('a, 'w) callback list"
  fresh :: nat
  calls :: "(ref \<times> 'a list) list"
  console :: "(string \<times> ref) list"
  world :: 'w

definition new_EventBus :: "'w \<Rightarrow> ('a, 'w) heap" where
  "new_EventBus w = \<lparr>events = Map.empty, fresh = 0, calls = [], console = [], world = w\<rparr>"

text \<open>\<open>on\<close>: create the array if the event has none, then push.\<close>

definition on :: "string \<Rightarrow> ('a, 'w) callback \<Rightarrow> ('a, 'w) heap \<Rightarrow> ('a, 'w) heap" where
  "on event callback st =
     (let callbacks = (case events st event of None \<Rightarrow> [] | Some cbs \<Rightarrow> cbs)
      in st\<lparr>events := (events st)(event \<mapsto> callbacks @ [callback])\<rparr>)"

text \<open>\<open>indexOf\<close>: the first index holding the reference, if any.\<close>

fun indexOf :: "('a, 'w) callback list \<Rightarrow> ref \<Rightarrow> nat option" where
  "indexOf [] r = None"
| "indexOf (c # cs) r =
     (if ref_of c = r then Some 0
      else (case indexOf cs r of None \<Rightarrow> None | Some i \<Rightarrow> Some (Suc i)))"

text \<open>\<open>splice(index, 1)\<close>: drop the element at the index, shifting the rest down.\<close>

definition splice1 :: "nat \<Rightarrow> 'b list \<Rightarrow> 'b list" where
  "splice1 i xs = take i xs @ drop (Suc i) xs"

definition off :: "string \<Rightarrow> ref \<Rightarrow> ('a, 'w) heap \<Rightarrow> ('a, 'w) heap" where
  "off event r st =
     (case events st event of
        None \<Rightarrow> st
      | Some callbacks \<Rightarrow>
          (case indexOf callbacks r of
             None \<Rightarrow> st
           | Some index \<Rightarrow> st\<lparr>events := (events st)(event \<mapsto> splice1 index callbacks)\<rparr>))"

text \<open>Calling a callback: the call is recorded, then the body runs until it throws.\<close>

fun call :: "('a, 'w) callback \<Rightarrow> 'a list \<Rightarrow> ('a, 'w) heap \<Rightarrow> outcome \<times> ('a, 'w) heap"
and run :: "('a, 'w) stmt list \<Rightarrow> 'a list \<Rightarrow> ('a, 'w) heap \<Rightarrow> outcome \<times> ('a, 'w) heap"
and exec :: "('a, 'w) stmt \<Rightarrow> 'a list \<Rightarrow> ('a, 'w) heap \<Rightarrow> outcome \<times> ('a, 'w) heap"
where
  "call (Callback n body) args st = run body args (st\<lparr>calls := calls st @ [(UserRef n, args)]\<rparr>)"
| "call (OnceCallback n event callback) args st =
     (case call callback args (st\<lparr>calls := calls st @ [(OnceRef n, args)]\<rparr>) of
        (Thrown, st') \<Rightarrow> (Thrown, st')
      | (Returned, st') \<Rightarrow> (Returned, off event (OnceRef n) st'))"
| "run [] args st = (Returned, st)"
| "run (s # ss) args st =
     (case exec s args st of
        (Thrown, st') \<Rightarrow> (Thrown, st')
      | (Returned, st') \<Rightarrow> run ss args st')"
| "exec Throw args st = (Thrown, st)"
| "exec (BusOn event callback) args st = (Returned, on event callback st)"
| "exec (BusOff event r) args st = (Returned, off event r st)"
| "exec (Effect f) args st = (case f args (world st) of (r, w) \<Rightarrow> (r, st\<lparr>world := w\<rparr>))"

text \<open>
  The body of the arrow function that \<open>emit\<close> hands to \<open>forEach\<close>: the call is inside
  \<open>try\<close>, the \<open>catch\<close> logs to the console and swallows the error.
\<close>

definition guarded :: "string \<Rightarrow> ('a, 'w) callback \<Rightarrow> 'a list \<Rightarrow> ('a, 'w) heap
    \<Rightarrow> outcome \<times> ('a, 'w) heap" where
  "guarded event callback args st =
     (case call callback args st of
        (Thrown, st') \<Rightarrow> (Returned, st'\<lparr>console := console st' @ [(event, ref_of callback)]\<rparr>)
      | (Returned, st') \<Rightarrow> (Returned, st'))"

text \<open>
  \<open>Array.prototype.forEach\<close> on the event's own array: the length is read once, before
  the loop; at every index below it the array is read as it is at that moment, and an
  index that is no longer present is passed over.  The array of an event is never
  replaced once created (\<open>off\<close> splices it in place), so reading \<open>events st event\<close> at each
  step reads that same array.  A throw of the loop body would leave the loop.
\<close>

function forEach :: "string \<Rightarrow> 'a list \<Rightarrow> nat \<Rightarrow> nat \<Rightarrow> ('a, 'w) heap \<Rightarrow> outcome \<times> ('a, 'w) heap" where
  "forEach event args k len st =
     (if k < len then
        (let callbacks = (case events st event of None \<Rightarrow> [] | Some cbs \<Rightarrow> cbs)
         in if k < length callbacks then
              (case guarded event (callbacks ! k) args st of
                 (Thrown, st') \<Rightarrow> (Thrown, st')
               | (Returned, st') \<Rightarrow> forEach event args (Suc k) len st')
            else forEach event args (Suc k) len st)
      else (Returned, st))"
  by pat_completeness auto
termination
  by (relation "measure (\<lambda>(event, args, k, len, st). len - k)") auto

declare forEach.simps [simp del]

definition emit :: "string \<Rightarrow> 'a list \<Rightarrow> ('a, 'w) heap \<Rightarrow> outcome \<times> ('a, 'w) heap" where
  "emit event args st =
     (case events st event of
        None \<Rightarrow> (Returned, st)
      | Some callbacks \<Rightarrow> forEach event args 0 (length callbacks) st)"

definition once :: "string \<Rightarrow> ('a, 'w) callback \<Rightarrow> ('a, 'w) heap \<Rightarrow> ('a, 'w) heap" where
  "once event callback st =
     on event (OnceCallback (fresh st) event callback) (st\<lparr>fresh := Suc (fresh st)\<rparr>)"

subsection \<open>Notions used to state the properties of the bus\<close>

text \<open>The callbacks currently registered for an event (none when the event has no array).\<close>

definition listeners :: "('a, 'w) heap \<Rightarrow> string \<Rightarrow> ('a, 'w) callback list" where
  "listeners st event = (case events st event of None \<Rightarrow> [] | Some cbs \<Rightarrow> cbs)"

text \<open>
  \<open>always_throws c\<close>: the body of \<open>c\<close> (of the callback it wraps, for a \<open>once\<close> closure)
  reaches a \<open>throw\<close> before it acts on the world, so every call of \<open>c\<close> throws.
\<close>

fun throws_body :: "('a, 'w) stmt list \<Rightarrow> bool" where
  "throws_body [] = False"
| "throws_body (Throw # ss) = True"
| "throws_body (BusOn event callback # ss) = throws_body ss"
| "throws_body (BusOff event r # ss) = throws_body ss"
| "throws_body (Effect f # ss) = False"

fun always_throws :: "('a, 'w) callback \<Rightarrow> bool" where
  "always_throws (Callback n body) = throws_body body"
| "always_throws (OnceCallback n event callback) = always_throws callback"

text \<open>
  \<open>keeps event c\<close>: nothing that runs when \<open>c\<close> is called unsubscribes from \<open>event\<close>,
  and the callbacks that it subscribes to \<open>event\<close> are of that kind too.  Subscribing,
  throwing and acting on the world are allowed; a \<open>once\<close> closure for \<open>event\<close> itself is
  of that kind when the callback it wraps always throws, since it then never reaches its
  \<open>off\<close>.
\<close>

fun keeps :: "string \<Rightarrow> ('a, 'w) callback \<Rightarrow> bool"
and keeps_body :: "string \<Rightarrow> ('a, 'w) stmt list \<Rightarrow> bool"
and keeps_stmt :: "string \<Rightarrow> ('a, 'w) stmt \<Rightarrow> bool"
where
  "keeps ev (Callback n body) = keeps_body ev body"
| "keeps ev (OnceCallback n event callback) =
     ((event \<noteq> ev \<or> always_throws callback) \<and> keeps ev callback)"
| "keeps_body ev [] = True"
| "keeps_body ev (s # ss) = (keeps_stmt ev s \<and> keeps_body ev ss)"
| "keeps_stmt ev Throw = True"
| "keeps_stmt ev (BusOn event callback) = (event \<noteq> ev \<or> keeps ev callback)"
| "keeps_stmt ev (BusOff event r) = (event \<noteq> ev)"
| "keeps_stmt ev (Effect f) = True"

text \<open>\<open>inert c\<close>: a client callback that never calls the bus.\<close>

fun inert_stmt :: "('a, 'w) stmt \<Rightarrow> bool" where
  "inert_stmt Throw = True"
| "inert_stmt (BusOn event callback) = False"
| "inert_stmt (BusOff event r) = False"
| "inert_stmt (Effect f) = True"

fun inert :: "('a, 'w) callback \<Rightarrow> bool" where
  "inert (Callback n body) = list_all inert_stmt body"
| "inert (OnceCallback n event callback) = False"

text \<open>The function calls that one call of a callback makes: itself, and for a \<open>once\<close>
  closure the callback it wraps.\<close>

fun trace :: "('a, 'w) callback \<Rightarrow> 'a list \<Rightarrow> (ref \<times> 'a list) list" where
  "trace (Callback n body) args = [(UserRef n, args)]"
| "trace (OnceCallback n event callback) args = (OnceRef n, args) # trace callback args"

text \<open>\<open>n\<close> calls of \<open>emit\<close> in a row, with the same event and arguments.\<close>

fun emits :: "nat \<Rightarrow> string \<Rightarrow> 'a list \<Rightarrow> ('a, 'w) heap \<Rightarrow> ('a, 'w) heap" where
  "emits 0 event args st = st"
| "emits (Suc n) event args st = emits n event args (snd (emit event args st))"

text \<open>
  A client callback that throws the first time it is called and returns every time after
  that.  The world is the number of calls it has seen:
  \<^verbatim>\<open>() => { if (seen === 0) { seen = 1; throw new Error('first'); } }\<close>.
\<close>

fun throw_when_unseen :: "'a list \<Rightarrow> nat \<Rightarrow> outcome \<times> nat" where
  "throw_when_unseen args 0 = (Thrown, 1)"
| "throw_when_unseen args (Suc seen) = (Returned, Suc seen)"

definition throws_first_time :: "('a, nat) callback" where
  "throws_first_time = Callback 0 [Effect throw_when_unseen]"

text \<open>
  \<open>steady ev args Q c\<close>: in every state, a call of \<open>c\<close> with \<open>args\<close> leaves the callbacks
  of \<open>ev\<close> in their places, adds only callbacks of \<open>Q\<close> behind them, and makes the function
  calls of \<open>trace c args\<close>.
\<close>

abbreviation steady :: "string \<Rightarrow> 'a list \<Rightarrow> ('a, 'w) callback set \<Rightarrow> ('a, 'w) callback \<Rightarrow> bool" where
  "steady ev args Q c \<equiv>
     (\<forall>s. prefix (listeners s ev) (listeners (snd (call c args s)) ev)
        \<and> set (listeners (snd (call c args s)) ev) \<subseteq> set (listeners s ev) \<union> Q
        \<and> calls (snd (call c args s)) = calls s @ trace c args)"

section \<open>Values shared by the modules\<close>

text \<open>
  A \<open>Date\<close> object is its time value, in milliseconds since the epoch; \<open>None\<close> is the
  invalid date, whose time value is \<open>NaN\<close>.  A property that holds a date or \<open>null\<close>
  (or is missing) is a \<open>date option\<close>.
\<close>

type_synonym date = "int option"

datatype error = Error string | TypeError string

text \<open>\<open>document.querySelector\<close>: the page maps a selector to the element it finds, or
  to nothing.\<close>

type_synonym document = "string \<rightharpoonup> nat"

text \<open>
  The interval timers of the window.  \<open>setInterval\<close> hands out a new positive handle and
  the timer is active until \<open>clearInterval\<close> is called with that handle.
\<close>

record timers =
  issued :: nat
  active :: "nat list"

definition setInterval :: "timers \<Rightarrow> nat \<times> timers" where
  "setInterval ts =
     (Suc (issued ts), ts\<lparr>issued := Suc (issued ts), active := active ts @ [Suc (issued ts)]\<rparr>)"

definition clearInterval :: "nat \<Rightarrow> timers \<Rightarrow> timers" where
  "clearInterval h ts = ts\<lparr>active := removeAll h (active ts)\<rparr>"

text \<open>The test \<open>if (handle)\<close> on a field that holds a timer handle or \<open>null\<close>.\<close>

fun truthy :: "nat option \<Rightarrow> bool" where
  "truthy None = False"
| "truthy (Some h) = (h \<noteq> 0)"

text \<open>
  The configuration object handed to a constructor; each class reads its own keys and
  takes its default for a key that is missing (\<open>None\<close>).
\<close>

record config =
  cfg_startDate :: "date option"
  cfg_endDate :: "date option"
  cfg_updateInterval :: "int option"
  cfg_defaultLocation :: "string option"

text \<open>What awaiting a promise gives: it resolves, it rejects, or it never settles.\<close>

datatype 'm init_result = Resolves 'm | Rejects error | Pending

section \<open>The timeline module (class Timeline of timeline.js)\<close>

text \<open>
  The \<open>sources\<close> property of an event, as \<open>updateEventDisplay\<close> reads it: missing or falsy,
  an array (of names), or some other truthy value, which has no \<open>map\<close> method.
\<close>

datatype sources_value = NoSources | SourceList "string list" | NotAList

text \<open>Of an event the model keeps the identifier, the date, the title and the sources;
  the display string \<open>formattedDate\<close> and the other descriptive fields are left out.\<close>

record timeline_event =
  event_id :: string
  event_date :: date
  title :: string
  sources :: sources_value

text \<open>\<open>svg\<close> tells whether the module holds an SVG element; \<open>eventElements\<close> lists the
  marker groups pushed so far, each by the index of its event.\<close>

record timeline =
  timeline_container :: nat
  startDate :: "date option"
  endDate :: "date option"
  timeline_events :: "timeline_event list"
  currentIndex :: nat
  isPlaying :: bool
  playInterval :: "nat option"
  svg :: bool
  eventElements :: "nat list"

definition new_Timeline :: "document \<Rightarrow> string \<Rightarrow> config \<Rightarrow> error + timeline" where
  "new_Timeline doc container cfg =
     (case doc container of
        None \<Rightarrow> Inl (Error ''Timeline container not found'')
      | Some element \<Rightarrow>
          Inr \<lparr>timeline_container = element, startDate = cfg_startDate cfg,
               endDate = cfg_endDate cfg, timeline_events = [], currentIndex = 0,
               isPlaying = False, playInterval = None, svg = False, eventElements = []\<rparr>)"

text \<open>
  What \<open>httpClient.get\<close> gives \<open>loadData\<close>.  The promise rejects (the fetch fails, the
  status is not ok, or the body does not parse), or it is fulfilled with data that
  \<open>loadData\<close> reads in one of three ways: an array, an object whose \<open>timeline.events\<close> is
  an array, or anything else.  An element of the array is \<open>None\<close> when it is \<open>null\<close> or
  \<open>undefined\<close> (reading its \<open>date\<close> throws a TypeError); otherwise it is an event whose
  \<open>event_date\<close> is what \<open>new Date(event.date)\<close> gives, the invalid date when the element
  has no usable \<open>date\<close>.
\<close>

datatype payload =
    JsonArray "timeline_event option list"
  | JsonTimeline "timeline_event option list"
  | JsonOther

datatype response = Rejected | Fulfilled payload

definition fallback_events :: "timeline_event list" where
  "fallback_events =
     [\<lparr>event_id = ''event-1'', event_date = Some 1696636800000, title = ''Conflict Begins'',
        sources = SourceList [''BBC'', ''Reuters'']\<rparr>,
      \<lparr>event_id = ''event-2'', event_date = Some 1696723200000, title = ''Israeli Response'',
        sources = SourceList [''AP'', ''Al Jazeera'']\<rparr>,
      \<lparr>event_id = ''event-3'', event_date = Some 1697328000000, title = ''Humanitarian Crisis'',
        sources = SourceList [''UN'', ''BBC'']\<rparr>]"

definition loadFallbackData :: "timeline \<Rightarrow> timeline" where
  "loadFallbackData t =
     t\<lparr>timeline_events := fallback_events,
       startDate := Some (event_date (fallback_events ! 0)),
       endDate := Some (event_date (fallback_events ! (length fallback_events - 1)))\<rparr>"

text \<open>The first statements of the \<open>try\<close> block: the request and the choice of the array.\<close>

fun eventsData :: "response \<Rightarrow> error + timeline_event option list" where
  "eventsData Rejected = Inl (Error ''HTTP request failed'')"
| "eventsData (Fulfilled (JsonArray xs)) = Inr xs"
| "eventsData (Fulfilled (JsonTimeline xs)) = Inr xs"
| "eventsData (Fulfilled JsonOther) =
     Inl (Error ''Timeline data must be an array or contain timeline.events array'')"

text \<open>\<open>map\<close>, \<open>filter\<close> and \<open>sort\<close>: a null element throws, events with an invalid date
  are dropped, the rest is sorted by date (the sort is stable).\<close>

definition valid_date :: "timeline_event \<Rightarrow> bool" where
  "valid_date e = (event_date e \<noteq> None)"

definition process_events :: "timeline_event option list \<Rightarrow> error + timeline_event list" where
  "process_events xs =
     (if None \<in> set xs then Inl (TypeError ''Cannot read properties of null (reading date)'')
      else Inr (sort_key (\<lambda>e. the (event_date e)) (filter valid_date (map the xs))))"

definition loadData :: "response \<Rightarrow> timeline \<Rightarrow> timeline" where
  "loadData r t =
     (case (case eventsData r of Inl e \<Rightarrow> Inl e | Inr xs \<Rightarrow> process_events xs) of
        Inl e \<Rightarrow> loadFallbackData t
      | Inr es \<Rightarrow>
          (let t1 = t\<lparr>timeline_events := es\<rparr>;
               t2 = (if startDate t1 = None \<and> es \<noteq> []
                     then t1\<lparr>startDate := Some (event_date (es ! 0))\<rparr> else t1)
           in if endDate t2 = None \<and> es \<noteq> []
              then t2\<lparr>endDate := Some (event_date (es ! (length es - 1)))\<rparr> else t2))"

text \<open>
  The page, as far as \<open>init\<close> reads and writes it: the ids of the elements of the
  document (for the timeline module those outside its container, whose content
  \<open>createTimelineStructure\<close> replaces), the listeners registered with
  \<open>addEventListener\<close> (target and event type), and the \<open>min\<close>, \<open>max\<close> and \<open>value\<close> set on the
  slider.  The calls of the DOM itself (\<open>getElementById\<close>, \<open>createElementNS\<close>,
  \<open>setAttribute\<close>, \<open>appendChild\<close>, \<open>addEventListener\<close>, assignments to \<open>innerHTML\<close> and
  \<open>textContent\<close>) do not throw.
\<close>

record page =
  element_ids :: "string list"
  dom_listeners :: "(string \<times> string) list"
  slider :: "(int \<times> int \<times> int) option"

text \<open>\<open>createTimelineStructure\<close> fills the container with eight elements that carry an
  id.  The container is an element of the document (the constructor found it with
  \<open>querySelector\<close>), so these elements are found by \<open>getElementById\<close> afterwards.\<close>

definition createTimelineStructure :: "page \<Rightarrow> page" where
  "createTimelineStructure p =
     p\<lparr>element_ids := element_ids p @
        [''timeline-svg-container'', ''timeline-event-details'', ''timeline-event-title'',
         ''timeline-event-date'', ''timeline-event-description'', ''timeline-event-meta'',
         ''timeline-event-type'', ''timeline-event-sources'']\<rparr>"

text \<open>\<open>setupControls\<close>: each control is wired only if the page has it.  The text that
  \<open>updateDateDisplay\<close> writes is left out.\<close>

definition setupControls :: "timeline \<Rightarrow> page \<Rightarrow> page" where
  "setupControls t p =
     (let p1 = (if ''timeline-play'' \<in> set (element_ids p)
                then p\<lparr>dom_listeners := dom_listeners p @ [(''timeline-play'', ''click'')]\<rparr>
                else p);
          p2 = (if ''timeline-pause'' \<in> set (element_ids p1)
                then p1\<lparr>dom_listeners := dom_listeners p1 @ [(''timeline-pause'', ''click'')]\<rparr>
                else p1)
      in if ''timeline-slider'' \<in> set (element_ids p2)
         then p2\<lparr>slider := Some (0, max 0 (int (length (timeline_events t)) - 1), 0),
                 dom_listeners := dom_listeners p2 @ [(''timeline-slider'', ''input'')]\<rparr>
         else p2)"

text \<open>
  \<open>updateEventDisplay\<close>: when there is a current event, its fields are written to the
  elements that exist; \<open>currentEvent.sources.map(...)\<close> is evaluated when the sources
  element exists and \<open>sources\<close> is truthy, and throws a TypeError when \<open>sources\<close> is not
  an array.  The texts written are left out, as are the two calls of \<open>eventBus.emit\<close>
  that end the function: \<open>emit\<close> does not throw, and what the callbacks do is not part
  of the timeline.
\<close>

definition updateEventDisplay :: "page \<Rightarrow> timeline \<Rightarrow> outcome" where
  "updateEventDisplay p t =
     (if currentIndex t < length (timeline_events t) then
        (case sources (timeline_events t ! currentIndex t) of
           NoSources \<Rightarrow> Returned
         | SourceList names \<Rightarrow> Returned
         | NotAList \<Rightarrow>
             if ''timeline-event-sources'' \<in> set (element_ids p) then Thrown else Returned)
      else Returned)"

text \<open>\<open>render\<close> returns at once when the page has no SVG container; otherwise it creates
  the SVG element, pushes one marker group for every event (\<open>createEventMarkers\<close>) and
  updates the display.\<close>

definition render :: "page \<Rightarrow> timeline \<Rightarrow> outcome \<times> timeline" where
  "render p t =
     (if ''timeline-svg-container'' \<in> set (element_ids p) then
        (let t' = t\<lparr>svg := True,
                      eventElements := eventElements t @ [0 ..< length (timeline_events t)]\<rparr>
         in (updateEventDisplay p t', t'))
      else (Returned, t))"

definition setupEventListeners :: "page \<Rightarrow> page" where
  "setupEventListeners p =
     p\<lparr>dom_listeners := dom_listeners p @ [(''window'', ''resize''), (''document'', ''keydown'')]\<rparr>"

text \<open>
  \<open>init\<close>: load the data, then build the page (\<open>createTimelineStructure\<close>,
  \<open>setupControls\<close>, \<open>render\<close>, \<open>setupEventListeners\<close>); an error thrown on the way is
  logged and thrown again, so the promise rejects.  The request is \<open>None\<close> when the fetch
  never settles.  The result is the module and the page as \<open>init\<close> leaves them.
\<close>

definition timeline_init :: "response option \<Rightarrow> page \<Rightarrow> timeline \<Rightarrow> (timeline \<times> page) init_result" where
  "timeline_init request p t =
     (case request of
        None \<Rightarrow> Pending
      | Some r \<Rightarrow>
          (let t1 = loadData r t;
               p1 = createTimelineStructure p;
               p2 = setupControls t1 p1
           in case render p2 t1 of
                (Thrown, t2) \<Rightarrow> Rejects (TypeError ''currentEvent.sources.map is not a function'')
              | (Returned, t2) \<Rightarrow> Resolves (t2, setupEventListeners p2)))"

text \<open>Playback.  The calls \<open>eventBus.emit('timeline:playStarted')\<close> and
  \<open>eventBus.emit('timeline:playPaused')\<close> that end \<open>play\<close> and \<open>pause\<close> change neither
  the timeline nor the timers and are left out, as are the button states.  \<open>destroy\<close>
  pauses, calls \<open>window.removeEventListener\<close> (no timer is involved) and clears the
  interval whose handle is still held, if any.\<close>

definition play :: "timeline \<Rightarrow> timers \<Rightarrow> timeline \<times> timers" where
  "play t ts =
     (if isPlaying t then (t, ts)
      else (case setInterval ts of
              (h, ts') \<Rightarrow> (t\<lparr>isPlaying := True, playInterval := Some h\<rparr>, ts')))"

definition pause :: "timeline \<Rightarrow> timers \<Rightarrow> timeline \<times> timers" where
  "pause t ts =
     (if truthy (playInterval t)
      then (t\<lparr>isPlaying := False, playInterval := None\<rparr>, clearInterval (the (playInterval t)) ts)
      else (t\<lparr>isPlaying := False\<rparr>, ts))"

definition timeline_destroy :: "timeline \<Rightarrow> timers \<Rightarrow> timeline \<times> timers" where
  "timeline_destroy t ts =
     (case pause t ts of
        (t', ts') \<Rightarrow>
          (if truthy (playInterval t') then (t', clearInterval (the (playInterval t')) ts')
           else (t', ts')))"

section \<open>The map module (class InteractiveMap of map.js)\<close>

text \<open>
  A location record: \<open>loc_date\<close> is the \<open>Date\<close> that \<open>loadData\<close> stored, or \<open>None\<close> when
  the record has no date (\<open>null\<close>, or no such property as in the fallback data);
  \<open>coordinates\<close> is the pair of latitude and longitude, \<open>None\<close> when the record carries
  none.  Numbers are the values of the doubles.
\<close>

record location =
  loc_id :: string
  loc_name :: string
  loc_date :: "date option"
  coordinates :: "(rat \<times> rat) option"

record marker =
  opacity :: rat

record interactive_map =
  map_container :: nat
  leaflet_map :: bool
  locationData :: "location list"
  markers :: "(string \<times> marker) list"

definition new_InteractiveMap :: "document \<Rightarrow> string \<Rightarrow> config \<Rightarrow> error + interactive_map" where
  "new_InteractiveMap doc container cfg =
     (case doc container of
        None \<Rightarrow> Inl (Error ''Map container not found'')
      | Some element \<Rightarrow>
          Inr \<lparr>map_container = element, leaflet_map = False, locationData = [], markers = []\<rparr>)"

text \<open>\<open>Map.prototype.set\<close> and \<open>get\<close> on a \<open>Map\<close> kept in insertion order.\<close>

fun Map_set :: "'k \<Rightarrow> 'v \<Rightarrow> ('k \<times> 'v) list \<Rightarrow> ('k \<times> 'v) list" where
  "Map_set k v [] = [(k, v)]"
| "Map_set k v ((k', v') # kvs) = (if k' = k then (k, v) # kvs else (k', v') # Map_set k v kvs)"

definition Map_get :: "('k \<times> 'v) list \<Rightarrow> 'k \<Rightarrow> 'v option" where
  "Map_get kvs k = map_of kvs k"

definition map_loadFallbackData :: "interactive_map \<Rightarrow> interactive_map" where
  "map_loadFallbackData m =
     m\<lparr>locationData :=
        [\<lparr>loc_id = ''gaza-city'', loc_name = ''Gaza City'', loc_date = None,
           coordinates = Some (315017 / 10000, 344668 / 10000)\<rparr>,
         \<lparr>loc_id = ''rafah'', loc_name = ''Rafah'', loc_date = None,
           coordinates = Some (313054 / 10000, 342501 / 10000)\<rparr>,
         \<lparr>loc_id = ''khan-younis'', loc_name = ''Khan Younis'', loc_date = None,
           coordinates = Some (313389 / 10000, 343063 / 10000)\<rparr>,
         \<lparr>loc_id = ''al-shifa-hospital'', loc_name = ''Al-Shifa Hospital'', loc_date = None,
           coordinates = Some (315052 / 10000, 344511 / 10000)\<rparr>]\<rparr>"

text \<open>\<open>addMarker\<close> creates a Leaflet marker (its opacity is Leaflet's default, 1) and
  stores it under the location's id; \<open>addLocationMarkers\<close> does so for every location.\<close>

definition addMarker :: "location \<Rightarrow> interactive_map \<Rightarrow> interactive_map" where
  "addMarker location m = m\<lparr>markers := Map_set (loc_id location) \<lparr>opacity = 1\<rparr> (markers m)\<rparr>"

definition addLocationMarkers :: "interactive_map \<Rightarrow> interactive_map" where
  "addLocationMarkers m = foldl (\<lambda>m' location. addMarker location m') m (locationData m)"

text \<open>
  \<open>filterByDate\<close>.  \<open>daysDiff\<close> is \<open>Math.abs(targetDate - location.date) / 86400000\<close>;
  it is \<open>NaN\<close> (\<open>None\<close>) when one of the dates is invalid, and \<open>NaN <= 7\<close> is false.
  Time values are whole numbers of milliseconds, and for them the comparison of the
  double quotient with 7 decides as the exact quotient does: a difference of seven days
  gives exactly 7, one millisecond more gives a double above 7.
\<close>

definition daysDiff :: "date \<Rightarrow> date \<Rightarrow> rat option" where
  "daysDiff targetDate d =
     (case (targetDate, d) of
        (Some t, Some u) \<Rightarrow> Some (of_int \<bar>t - u\<bar> / (1000 * 60 * 60 * 24))
      | _ \<Rightarrow> None)"

fun at_most :: "rat option \<Rightarrow> rat \<Rightarrow> bool" where
  "at_most None bound = False"
| "at_most (Some x) bound = (x \<le> bound)"

definition filter_marker :: "location list \<Rightarrow> date \<Rightarrow> string \<times> marker \<Rightarrow> string \<times> marker" where
  "filter_marker locs targetDate entry =
     (case entry of
        (locationId, marker) \<Rightarrow>
          (case find (\<lambda>loc. loc_id loc = locationId) locs of
             None \<Rightarrow> (locationId, marker)
           | Some location \<Rightarrow>
               (case loc_date location of
                  None \<Rightarrow> (locationId, marker)
                | Some d \<Rightarrow>
                    if at_most (daysDiff targetDate d) 7
                    then (locationId, marker\<lparr>opacity := 1\<rparr>)
                    else (locationId, marker\<lparr>opacity := 3 / 10\<rparr>))))"

definition filterByDate :: "date \<Rightarrow> interactive_map \<Rightarrow> interactive_map" where
  "filterByDate targetDate m =
     m\<lparr>markers := map (filter_marker (locationData m) targetDate) (markers m)\<rparr>"

text \<open>\<open>destroy\<close>: the Leaflet map, if there is one, is removed and the field set to
  \<open>null\<close>; the layer groups and the markers are cleared.\<close>

definition map_destroy :: "interactive_map \<Rightarrow> interactive_map" where
  "map_destroy m = m\<lparr>leaflet_map := False, markers := []\<rparr>"

section \<open>The satellite module (class SatelliteImagery of satellite.js)\<close>

record bounds =
  north :: rat
  south :: rat
  east :: rat
  west :: rat

record location_info =
  info_name :: string
  info_bounds :: bounds

record satellite =
  satellite_container :: nat
  currentLocation :: string
  locations :: "(string \<times> location_info) list"
  timelapseIndex :: nat
  currentImages :: nat
  timelapseInterval :: int
  sat_isPlaying :: bool
  sat_playInterval :: "nat option"

text \<open>The predefined locations, in the order in which the constructor inserts them.\<close>

definition predefined_locations :: "(string \<times> location_info) list" where
  "predefined_locations =
     [(''gaza-strip'', \<lparr>info_name = ''Gaza Strip'',
         info_bounds = \<lparr>north = 3159 / 100, south = 3122 / 100, east = 3457 / 100, west = 3422 / 100\<rparr>\<rparr>),
      (''gaza-city'', \<lparr>info_name = ''Gaza City'',
         info_bounds = \<lparr>north = 3152 / 100, south = 3148 / 100, east = 3448 / 100, west = 3444 / 100\<rparr>\<rparr>),
      (''rafah'', \<lparr>info_name = ''Rafah'',
         info_bounds = \<lparr>north = 3132 / 100, south = 3128 / 100, east = 3426 / 100, west = 3422 / 100\<rparr>\<rparr>),
      (''khan-younis'', \<lparr>info_name = ''Khan Younis'',
         info_bounds = \<lparr>north = 3136 / 100, south = 3132 / 100, east = 3432 / 100, west = 3428 / 100\<rparr>\<rparr>)]"

text \<open>\<open>currentImages\<close> stands for the number of images loaded, the only thing playback
  reads of them; the images themselves are mock data and are left out.\<close>

definition new_SatelliteImagery :: "document \<Rightarrow> string \<Rightarrow> config \<Rightarrow> error + satellite" where
  "new_SatelliteImagery doc container cfg =
     (case doc container of
        None \<Rightarrow> Inl (Error ''Satellite container not found'')
      | Some element \<Rightarrow>
          Inr \<lparr>satellite_container = element,
               currentLocation =
                 (case cfg_defaultLocation cfg of None \<Rightarrow> ''gaza-strip'' | Some l \<Rightarrow> l),
               locations = predefined_locations, timelapseIndex = 0, currentImages = 0,
               timelapseInterval = 1000, sat_isPlaying = False, sat_playInterval = None\<rparr>)"

definition inside :: "rat \<times> rat \<Rightarrow> bounds \<Rightarrow> bool" where
  "inside coords b =
     (case coords of
        (lat, lng) \<Rightarrow> lat \<ge> south b \<and> lat \<le> north b \<and> lng \<ge> west b \<and> lng \<le> east b)"

fun findLocationByCoordinates :: "rat \<times> rat \<Rightarrow> (string \<times> location_info) list \<Rightarrow> string option" where
  "findLocationByCoordinates coords [] = None"
| "findLocationByCoordinates coords ((key, location) # rest) =
     (if inside coords (info_bounds location) then Some key
      else findLocationByCoordinates coords rest)"

text \<open>
  \<open>changeLocation\<close> is an async function; what it does before its first \<open>await\<close> happens
  within the call: the current location and the timelapse index are set.  The loading
  of the images and the later \<open>satellite:locationChanged\<close> event are left out.
\<close>

definition changeLocation :: "string \<Rightarrow> satellite \<Rightarrow> satellite" where
  "changeLocation location s =
     (if map_of (locations s) location \<noteq> None
      then s\<lparr>currentLocation := location, timelapseIndex := 0\<rparr>
      else s)"

text \<open>\<open>showLocation\<close>; the key found is tested with \<open>if (locationKey)\<close>, which the empty
  string fails.\<close>

definition showLocation :: "location \<Rightarrow> satellite \<Rightarrow> satellite" where
  "showLocation location s =
     (case coordinates location of
        None \<Rightarrow> s
      | Some coords \<Rightarrow>
          (case findLocationByCoordinates coords (locations s) of
             None \<Rightarrow> s
           | Some locationKey \<Rightarrow> if locationKey \<noteq> [] then changeLocation locationKey s else s))"

definition playTimelapse :: "satellite \<Rightarrow> timers \<Rightarrow> satellite \<times> timers" where
  "playTimelapse s ts =
     (if sat_isPlaying s \<or> currentImages s \<le> 1 then (s, ts)
      else (case setInterval ts of
              (h, ts') \<Rightarrow> (s\<lparr>sat_isPlaying := True, sat_playInterval := Some h\<rparr>, ts')))"

definition pauseTimelapse :: "satellite \<Rightarrow> timers \<Rightarrow> satellite \<times> timers" where
  "pauseTimelapse s ts =
     (if truthy (sat_playInterval s)
      then (s\<lparr>sat_isPlaying := False, sat_playInterval := None\<rparr>,
            clearInterval (the (sat_playInterval s)) ts)
      else (s\<lparr>sat_isPlaying := False\<rparr>, ts))"

definition satellite_destroy :: "satellite \<Rightarrow> timers \<Rightarrow> satellite \<times> timers" where
  "satellite_destroy s ts = pauseTimelapse s ts"

section \<open>The news module (class NewsIntegration of news.js)\<close>

record news =
  news_container :: nat
  updateInterval :: int
  updateTimer :: "nat option"

definition new_NewsIntegration :: "document \<Rightarrow> string \<Rightarrow> config \<Rightarrow> error + news" where
  "new_NewsIntegration doc container cfg =
     (case doc container of
        None \<Rightarrow> Inl (Error ''News container not found'')
      | Some element \<Rightarrow>
          Inr \<lparr>news_container = element,
               updateInterval = (case cfg_updateInterval cfg of None \<Rightarrow> 300000 | Some n \<Rightarrow> n),
               updateTimer = None\<rparr>)"

definition startAutoUpdate :: "news \<Rightarrow> timers \<Rightarrow> news \<times> timers" where
  "startAutoUpdate n ts =
     (if updateInterval n > 0
      then (case setInterval ts of (h, ts') \<Rightarrow> (n\<lparr>updateTimer := Some h\<rparr>, ts'))
      else (n, ts))"

definition stopAutoUpdate :: "news \<Rightarrow> timers \<Rightarrow> news \<times> timers" where
  "stopAutoUpdate n ts =
     (if truthy (updateTimer n)
      then (n\<lparr>updateTimer := None\<rparr>, clearInterval (the (updateTimer n)) ts)
      else (n, ts))"

definition news_pause :: "news \<Rightarrow> timers \<Rightarrow> news \<times> timers" where
  "news_pause n ts = stopAutoUpdate n ts"

definition news_resume :: "news \<Rightarrow> timers \<Rightarrow> news \<times> timers" where
  "news_resume n ts = startAutoUpdate n ts"

definition news_destroy :: "news \<Rightarrow> timers \<Rightarrow> news \<times> timers" where
  "news_destroy n ts = stopAutoUpdate n ts"

section \<open>The sources module (class SourcesManager of sources.js)\<close>

text \<open>Of the module the model keeps the container; the constructor creates the two
  \<open>Map\<close>s \<open>sources\<close> and \<open>sourceCategories\<close> empty, and they are left out.  \<open>destroy\<close> only
  writes a log line.\<close>

record sources_manager =
  sources_container :: nat

definition new_SourcesManager :: "document \<Rightarrow> string \<Rightarrow> config \<Rightarrow> error + sources_manager" where
  "new_SourcesManager doc container cfg =
     (case doc container of
        None \<Rightarrow> Inl (Error ''Sources container not found'')
      | Some element \<Rightarrow> Inr \<lparr>sources_container = element\<rparr>)"

section \<open>The coordinator (class GazaWarDocumentation of main.js)\<close>

text \<open>A module instance of one of the five classes.\<close>

datatype module =
    TimelineModule timeline
  | MapModule interactive_map
  | NewsModule news
  | SatelliteModule satellite
  | SourcesModule sources_manager

text \<open>
  A module class, as \<open>initializeModules\<close> uses it: \<open>construct\<close> is
  \<open>new ModuleClass(container, config, eventBus)\<close> on the page, which returns the
  instance or throws; \<open>init\<close> is what awaiting \<open>module.init()\<close> gives in this run.
  No module subscribes to the bus, and before \<open>setupModuleCommunication\<close> the bus has
  no callback, so the bus is not an argument.
\<close>

record module_class =
  construct :: "document \<Rightarrow> string \<Rightarrow> config \<Rightarrow> error + module"
  init :: "module \<Rightarrow> module init_result"

record descriptor =
  name :: string
  moduleClass :: module_class
  container :: string
  config :: config

text \<open>The constructors of the five module classes, as \<open>construct\<close> fields.\<close>

definition construct_Timeline :: "document \<Rightarrow> string \<Rightarrow> config \<Rightarrow> error + module" where
  "construct_Timeline doc c cfg = map_sum id TimelineModule (new_Timeline doc c cfg)"

definition construct_InteractiveMap :: "document \<Rightarrow> string \<Rightarrow> config \<Rightarrow> error + module" where
  "construct_InteractiveMap doc c cfg = map_sum id MapModule (new_InteractiveMap doc c cfg)"

definition construct_NewsIntegration :: "document \<Rightarrow> string \<Rightarrow> config \<Rightarrow> error + module" where
  "construct_NewsIntegration doc c cfg = map_sum id NewsModule (new_NewsIntegration doc c cfg)"

definition construct_SatelliteImagery :: "document \<Rightarrow> string \<Rightarrow> config \<Rightarrow> error + module" where
  "construct_SatelliteImagery doc c cfg = map_sum id SatelliteModule (new_SatelliteImagery doc c cfg)"

definition construct_SourcesManager :: "document \<Rightarrow> string \<Rightarrow> config \<Rightarrow> error + module" where
  "construct_SourcesManager doc c cfg = map_sum id SourcesModule (new_SourcesManager doc c cfg)"

definition source_constructors :: "(document \<Rightarrow> string \<Rightarrow> config \<Rightarrow> error + module) list" where
  "source_constructors =
     [construct_Timeline, construct_InteractiveMap, construct_NewsIntegration,
      construct_SatelliteImagery, construct_SourcesManager]"

text \<open>
  The coordinator's state: the module registry (a \<open>Map\<close> in insertion order), the
  console lines it has written, and a record of the constructor and \<open>init\<close> calls it
  has made.
\<close>

datatype entry = Info string | Failure string error

datatype step = ConstructorCalled string | InitCalled string

record app =
  modules :: "(string \<times> module) list"
  journal :: "entry list"
  steps :: "step list"

definition new_GazaWarDocumentation :: app where
  "new_GazaWarDocumentation = \<lparr>modules = [], journal = [], steps = []\<rparr>"

text \<open>
  The body of the loop of \<open>initializeModules\<close>, for one module descriptor: a \<open>try\<close>
  around the construction, the awaited \<open>init\<close> and the registration; the \<open>catch\<close> logs
  the failure.  The result is \<open>None\<close> when the awaited \<open>init\<close> never settles.
\<close>

definition initializeModule :: "document \<Rightarrow> descriptor \<Rightarrow> app \<Rightarrow> app option" where
  "initializeModule doc moduleConfig a =
     (let a1 = a\<lparr>journal := journal a @ [Info (''Initializing '' @ name moduleConfig @ '' module...'')],
                 steps := steps a @ [ConstructorCalled (name moduleConfig)]\<rparr>
      in case construct (moduleClass moduleConfig) doc (container moduleConfig) (config moduleConfig) of
           Inl e \<Rightarrow> Some (a1\<lparr>journal := journal a1 @ [Failure (name moduleConfig) e]\<rparr>)
         | Inr m \<Rightarrow>
             (let a2 = a1\<lparr>steps := steps a1 @ [InitCalled (name moduleConfig)]\<rparr>
              in case init (moduleClass moduleConfig) m of
                   Pending \<Rightarrow> None
                 | Rejects e \<Rightarrow> Some (a2\<lparr>journal := journal a2 @ [Failure (name moduleConfig) e]\<rparr>)
                 | Resolves m' \<Rightarrow>
                     Some (a2\<lparr>modules := Map_set (name moduleConfig) m' (modules a2),
                              journal := journal a2 @
                                [Info (name moduleConfig @ '' module initialized successfully'')]\<rparr>)))"

text \<open>The loop: the modules one after the other, each awaited before the next starts.\<close>

fun initializeModules :: "document \<Rightarrow> descriptor list \<Rightarrow> app \<Rightarrow> app option" where
  "initializeModules doc [] a = Some a"
| "initializeModules doc (moduleConfig # rest) a =
     (case initializeModule doc moduleConfig a of
        None \<Rightarrow> None
      | Some a' \<Rightarrow> initializeModules doc rest a')"

text \<open>
  The list \<open>moduleConfigs\<close> of \<open>initializeModules\<close>.  The five classes are parameters:
  what their \<open>init\<close> gives depends on the run.
\<close>

definition no_config :: config where
  "no_config = \<lparr>cfg_startDate = None, cfg_endDate = None, cfg_updateInterval = None,
                 cfg_defaultLocation = None\<rparr>"

definition moduleConfigs ::
  "module_class \<Rightarrow> module_class \<Rightarrow> module_class \<Rightarrow> module_class \<Rightarrow> module_class
     \<Rightarrow> descriptor list" where
  "moduleConfigs Timeline InteractiveMap NewsIntegration SatelliteImagery SourcesManager =
     [\<lparr>name = ''timeline'', moduleClass = Timeline, container = ''#timeline-container'',
        config = no_config\<rparr>,
      \<lparr>name = ''map'', moduleClass = InteractiveMap, container = ''#map'', config = no_config\<rparr>,
      \<lparr>name = ''news'', moduleClass = NewsIntegration, container = ''#news-grid'',
        config = no_config\<lparr>cfg_updateInterval := Some 300000\<rparr>\<rparr>,
      \<lparr>name = ''satellite'', moduleClass = SatelliteImagery, container = ''#satellite-viewer'',
        config = no_config\<lparr>cfg_defaultLocation := Some ''gaza-strip''\<rparr>\<rparr>,
      \<lparr>name = ''sources'', moduleClass = SourcesManager, container = ''#sources'',
        config = no_config\<rparr>]"

text \<open>
  For the statements about the loop: what the attempt to bring up one module comes to,
  the constructor and \<open>init\<close> calls it makes, and the registry entries a list of
  descriptors leaves.
\<close>

datatype attempt = ConstructorThrew error | InitRejected error | InitPending | Ready module

definition attempt_of :: "document \<Rightarrow> descriptor \<Rightarrow> attempt" where
  "attempt_of doc d =
     (case construct (moduleClass d) doc (container d) (config d) of
        Inl e \<Rightarrow> ConstructorThrew e
      | Inr m \<Rightarrow>
          (case init (moduleClass d) m of
             Pending \<Rightarrow> InitPending
           | Rejects e \<Rightarrow> InitRejected e
           | Resolves m' \<Rightarrow> Ready m'))"

definition steps_of :: "document \<Rightarrow> descriptor \<Rightarrow> step list" where
  "steps_of doc d =
     (case attempt_of doc d of
        ConstructorThrew e \<Rightarrow> [ConstructorCalled (name d)]
      | other \<Rightarrow> [ConstructorCalled (name d), InitCalled (name d)])"

definition registered :: "document \<Rightarrow> descriptor list \<Rightarrow> (string \<times> module) list" where
  "registered doc ds =
     concat (map (\<lambda>d. case attempt_of doc d of Ready m \<Rightarrow> [(name d, m)] | other \<Rightarrow> []) ds)"

text \<open>The arguments that the modelled events carry.\<close>

datatype arg = Undefined | DateArg date | LocationArg location

text \<open>\<open>new Date(value)\<close> for the argument of \<open>filterByDate\<close>: a date is copied, anything
  else modelled here gives the invalid date.\<close>

fun new_Date :: "arg \<Rightarrow> date" where
  "new_Date (DateArg d) = d"
| "new_Date Undefined = None"
| "new_Date (LocationArg l) = None"

definition first_arg :: "arg list \<Rightarrow> arg" where
  "first_arg args = (case args of [] \<Rightarrow> Undefined | a # rest \<Rightarrow> a)"

text \<open>
  The two routes of \<open>setupModuleCommunication\<close> that the properties below are about,
  as actions on the coordinator's state.  A module of another class registered under
  the name has no such method (the call throws a TypeError), except that the map module
  has a \<open>showLocation\<close> of its own, which changes nothing modelled here.  Reading
  \<open>location.coordinates\<close> of \<open>undefined\<close> throws; a date has no coordinates.
\<close>

definition timeline_to_map :: "arg list \<Rightarrow> app \<Rightarrow> outcome \<times> app" where
  "timeline_to_map args a =
     (case Map_get (modules a) ''map'' of
        None \<Rightarrow> (Returned, a)
      | Some (MapModule m) \<Rightarrow>
          (Returned, a\<lparr>modules := Map_set ''map'' (MapModule (filterByDate (new_Date (first_arg args)) m)) (modules a)\<rparr>)
      | Some other \<Rightarrow> (Thrown, a))"

definition map_to_satellite :: "arg list \<Rightarrow> app \<Rightarrow> outcome \<times> app" where
  "map_to_satellite args a =
     (case Map_get (modules a) ''satellite'' of
        None \<Rightarrow> (Returned, a)
      | Some (SatelliteModule s) \<Rightarrow>
          (case first_arg args of
             Undefined \<Rightarrow> (Thrown, a)
           | DateArg d \<Rightarrow> (Returned, a)
           | LocationArg location \<Rightarrow>
               (Returned, a\<lparr>modules := Map_set ''satellite'' (SatelliteModule (showLocation location s)) (modules a)\<rparr>))
      | Some (MapModule m) \<Rightarrow>
          (case first_arg args of Undefined \<Rightarrow> (Thrown, a) | other \<Rightarrow> (Returned, a))
      | Some other \<Rightarrow> (Thrown, a))"

text \<open>
  \<open>setupModuleCommunication\<close> subscribes four callbacks, in this order.  The callbacks
  for \<open>news:articleSelected\<close> and \<open>filter:dateRange\<close> are parameters: they are
  registered for other events than the two routes above.
\<close>

definition setupModuleCommunication ::
  "(arg, app) callback \<Rightarrow> (arg, app) callback \<Rightarrow> (arg, app) heap \<Rightarrow> (arg, app) heap" where
  "setupModuleCommunication news_to_timeline date_filter st =
     on ''filter:dateRange'' date_filter
       (on ''news:articleSelected'' news_to_timeline
         (on ''map:locationSelected'' (Callback 1 [Effect map_to_satellite])
           (on ''timeline:dateChanged'' (Callback 0 [Effect timeline_to_map]) st)))"

section \<open>Notions used to state the properties of the modules\<close>

text \<open>A response that \<open>loadData\<close> cannot use: the request was rejected, the data is
  neither an array nor an object with a \<open>timeline.events\<close> array, or the array holds a
  null element.\<close>

fun unusable :: "response \<Rightarrow> bool" where
  "unusable Rejected = True"
| "unusable (Fulfilled JsonOther) = True"
| "unusable (Fulfilled (JsonArray xs)) = (None \<in> set xs)"
| "unusable (Fulfilled (JsonTimeline xs)) = (None \<in> set xs)"

text \<open>The seven-day rule on time values, in milliseconds, and the date of the location
  that \<open>filterByDate\<close> finds for a marker: the first location with the marker's id.\<close>

definition within_7_days :: "date \<Rightarrow> date \<Rightarrow> bool" where
  "within_7_days D d =
     (case (D, d) of (Some t, Some u) \<Rightarrow> \<bar>t - u\<bar> \<le> 7 * 24 * 60 * 60 * 1000 | _ \<Rightarrow> False)"

definition date_of_marker :: "location list \<Rightarrow> string \<Rightarrow> date option" where
  "date_of_marker locs locationId =
     (case find (\<lambda>loc. loc_id loc = locationId) locs of
        None \<Rightarrow> None
      | Some location \<Rightarrow> loc_date location)"

text \<open>The map module after a failed request: the fallback locations and their markers.\<close>

definition fallback_map :: interactive_map where
  "fallback_map = addLocationMarkers (map_loadFallbackData \<lparr>map_container = 1, leaflet_map = True, locationData = [], markers = []\<rparr>)"

text \<open>The key of the first entry of the location table whose bounds contain the
  coordinates.\<close>

definition first_region :: "rat \<times> rat \<Rightarrow> (string \<times> location_info) list \<Rightarrow> string option" where
  "first_region coords table =
     map_option fst (find (\<lambda>entry. inside coords (info_bounds (snd entry))) table)"

text \<open>A module keeps track of its timer: the window's only active timer is the one whose
  handle the module holds, and the module plays exactly when it holds one.\<close>

definition timeline_tracks :: "timeline \<Rightarrow> timers \<Rightarrow> bool" where
  "timeline_tracks t ts =
     (case playInterval t of
        None \<Rightarrow> active ts = [] \<and> \<not> isPlaying t
      | Some h \<Rightarrow> active ts = [h] \<and> h \<noteq> 0 \<and> isPlaying t)"

definition satellite_tracks :: "satellite \<Rightarrow> timers \<Rightarrow> bool" where
  "satellite_tracks s ts =
     (case sat_playInterval s of
        None \<Rightarrow> active ts = [] \<and> \<not> sat_isPlaying s
      | Some h \<Rightarrow> active ts = [h] \<and> h \<noteq> 0 \<and> sat_isPlaying s)"

section \<open>Properties of the event bus\<close>

lemma listeners_on: "listeners (on e c st) ev = (if e = ev then listeners st ev @ [c] else listeners st ev)"
  by (simp add: listeners_def on_def Let_def)

lemma listeners_off_other: "e \<noteq> ev \<Longrightarrow> listeners (off e r st) ev = listeners st ev"
  by (simp add: listeners_def off_def split: option.splits)

lemma calls_on [simp]: "calls (on e c st) = calls st"
  by (simp add: on_def Let_def)

lemma calls_off [simp]: "calls (off e r st) = calls st"
  by (simp add: off_def split: option.splits)

lemma throws_body_Thrown: "throws_body body \<Longrightarrow> fst (run body args st) = Thrown"
proof (induction body arbitrary: st rule: throws_body.induct)
  case 1
  then show ?case by simp
next
  case (2 ss)
  then show ?case by simp
next
  case (3 event callback ss)
  then show ?case by simp
next
  case (4 event r ss)
  then show ?case by simp
next
  case (5 f ss)
  then show ?case by simp
qed

lemma always_throws_Thrown: "always_throws c \<Longrightarrow> fst (call c args st) = Thrown"
proof (induction c arbitrary: st rule: always_throws.induct)
  case (1 n body)
  then show ?case by (simp add: throws_body_Thrown)
next
  case (2 n event callback)
  then show ?case by (simp split: prod.splits outcome.splits) (metis fst_conv outcome.distinct(1))
qed

lemma call_keeps:
  "keeps ev c \<Longrightarrow> prefix (listeners st ev) (listeners (snd (call c args st)) ev)
       \<and> calls (snd (call c args st)) = calls st @ trace c args"
  "keeps_body ev ss \<Longrightarrow> prefix (listeners st ev) (listeners (snd (run ss args st)) ev)
       \<and> calls (snd (run ss args st)) = calls st"
  "keeps_stmt ev s \<Longrightarrow> prefix (listeners st ev) (listeners (snd (exec s args st)) ev)
       \<and> calls (snd (exec s args st)) = calls st"
proof (induction c args st and ss args st and s args st rule: call_run_exec.induct)
  case (1 n body args st)
  then show ?case by (simp add: listeners_def)
next
  case (2 n event callback args st)
  let ?s = "st\<lparr>calls := calls st @ [(OnceRef n, args)]\<rparr>"
  obtain r st' where c: "call callback args ?s = (r, st')" by (cases "call callback args ?s")
  from "2.prems" have k: "keeps ev callback" and d: "event \<noteq> ev \<or> always_throws callback"
    by simp_all
  from "2.IH" [OF k] c
  have p: "prefix (listeners st ev) (listeners st' ev)"
    and q: "calls st' = calls st @ (OnceRef n, args) # trace callback args"
    by (simp_all add: listeners_def)
  show ?case
  proof (cases r)
    case Thrown
    with c p q show ?thesis by simp
  next
    case Returned
    with c d always_throws_Thrown [of callback args ?s] have "event \<noteq> ev" by auto
    with Returned c p q show ?thesis by (simp add: listeners_off_other)
  qed
next
  case (3 args st)
  then show ?case by simp
next
  case (4 s ss args st)
  then show ?case
    by (auto split: prod.splits outcome.splits dest: prefix_order.trans)
next
  case (5 args st)
  then show ?case by simp
next
  case (6 event callback args st)
  then show ?case by (simp add: listeners_on)
next
  case (7 event r args st)
  then show ?case by (simp add: listeners_off_other)
next
  case (8 f args st)
  then show ?case by (simp add: listeners_def split: prod.splits)
qed

lemma call_keeps_set:
  "keeps ev c \<Longrightarrow>
     set (listeners (snd (call c args st)) ev) \<subseteq> set (listeners st ev) \<union> Collect (keeps ev)"
  "keeps_body ev ss \<Longrightarrow>
     set (listeners (snd (run ss args st)) ev) \<subseteq> set (listeners st ev) \<union> Collect (keeps ev)"
  "keeps_stmt ev s \<Longrightarrow>
     set (listeners (snd (exec s args st)) ev) \<subseteq> set (listeners st ev) \<union> Collect (keeps ev)"
proof (induction c args st and ss args st and s args st rule: call_run_exec.induct)
  case (1 n body args st)
  then show ?case by (simp add: listeners_def)
next
  case (2 n event callback args st)
  let ?s = "st\<lparr>calls := calls st @ [(OnceRef n, args)]\<rparr>"
  obtain r st' where c: "call callback args ?s = (r, st')" by (cases "call callback args ?s")
  from "2.prems" have k: "keeps ev callback" and d: "event \<noteq> ev \<or> always_throws callback"
    by simp_all
  from "2.IH" [OF k] c
  have p: "set (listeners st' ev) \<subseteq> set (listeners st ev) \<union> Collect (keeps ev)"
    by (simp add: listeners_def)
  show ?case
  proof (cases r)
    case Thrown
    with c p show ?thesis by simp
  next
    case Returned
    with c d always_throws_Thrown [of callback args ?s] have "event \<noteq> ev" by auto
    with Returned c p show ?thesis by (simp add: listeners_off_other)
  qed
next
  case (3 args st)
  then show ?case by simp
next
  case (4 s ss args st)
  then show ?case
    by (auto split: prod.splits outcome.splits) blast
next
  case (5 args st)
  then show ?case by simp
next
  case (6 event callback args st)
  then show ?case by (auto simp: listeners_on)
next
  case (7 event r args st)
  then show ?case by (simp add: listeners_off_other)
next
  case (8 f args st)
  then show ?case by (simp add: listeners_def split: prod.splits)
qed

lemma keeps_steady: "keeps ev c \<Longrightarrow> steady ev args (Collect (keeps ev)) c"
  using call_keeps(1) [of ev c] call_keeps_set(1) [of ev c] by simp

lemma once_throwing_steady:
  fixes cb :: "('a, 'w) callback"
  assumes "keeps ev cb" and "\<forall>s. fst (call cb args s) = Thrown"
  shows "steady ev args (Collect (keeps ev)) (OnceCallback n ev cb)"
proof (intro allI)
  fix st :: "('a, 'w) heap"
  let ?s = "st\<lparr>calls := calls st @ [(OnceRef n, args)]\<rparr>"
  obtain r st' where c: "call cb args ?s = (r, st')" by (cases "call cb args ?s")
  with assms(2) have r: "r = Thrown" by (metis fst_conv)
  have l: "listeners ?s ev = listeners st ev" by (simp add: listeners_def)
  from call_keeps(1) [OF assms(1), of ?s args] call_keeps_set(1) [OF assms(1), of args ?s] c l
  have "prefix (listeners st ev) (listeners st' ev)"
    and "set (listeners st' ev) \<subseteq> set (listeners st ev) \<union> Collect (keeps ev)"
    and "calls st' = calls st @ (OnceRef n, args) # trace cb args" by simp_all
  with c r show "prefix (listeners st ev) (listeners (snd (call (OnceCallback n ev cb) args st)) ev)
       \<and> set (listeners (snd (call (OnceCallback n ev cb) args st)) ev)
            \<subseteq> set (listeners st ev) \<union> Collect (keeps ev)
       \<and> calls (snd (call (OnceCallback n ev cb) args st))
            = calls st @ trace (OnceCallback n ev cb) args"
    by simp
qed

lemma guarded_Returned: "fst (guarded ev c args st) = Returned"
  by (simp add: guarded_def split: prod.splits outcome.splits)

lemma forEach_Returned: "fst (forEach ev args k len st) = Returned"
proof (induction ev args k len st rule: forEach.induct)
  case (1 event args k len st)
  show ?case
  proof (cases "k < len")
    case False
    then show ?thesis by (simp add: forEach.simps)
  next
    case True
    define callbacks where "callbacks = (case events st event of None \<Rightarrow> [] | Some cbs \<Rightarrow> cbs)"
    show ?thesis
    proof (cases "k < length callbacks")
      case False
      with True 1(2) [OF True callbacks_def] show ?thesis
        by (subst forEach.simps) (simp add: callbacks_def Let_def)
    next
      case inb: True
      obtain r st' where g: "guarded event (callbacks ! k) args st = (r, st')"
        by (cases "guarded event (callbacks ! k) args st")
      with guarded_Returned [of event "callbacks ! k" args st] have r: "r = Returned" by simp
      from 1(1) [OF True callbacks_def inb g [symmetric, unfolded r]] True inb g r
      show ?thesis
        by (subst forEach.simps) (simp add: callbacks_def Let_def)
    qed
  qed
qed

lemma emit_Returned: "fst (emit ev args st) = Returned"
  by (simp add: emit_def forEach_Returned split: option.splits)

lemma forEach_steady:
  assumes "\<forall>c \<in> set cbs. steady ev args Q c"
    and "prefix cbs (listeners st ev)" and "k \<le> length cbs"
  shows "prefix (listeners st ev) (listeners (snd (forEach ev args k (length cbs) st)) ev)
       \<and> set (listeners (snd (forEach ev args k (length cbs) st)) ev) \<subseteq> set (listeners st ev) \<union> Q
       \<and> calls (snd (forEach ev args k (length cbs) st))
           = calls st @ concat (map (\<lambda>c. trace c args) (drop k cbs))"
  using assms(2,3)
proof (induction "length cbs - k" arbitrary: k st)
  case 0
  then show ?case by (simp add: forEach.simps)
next
  case (Suc d)
  then have k: "k < length cbs" by simp
  from Suc.prems(1) k have len: "k < length (listeners st ev)"
    by (metis prefix_length_le less_le_trans)
  from Suc.prems(1) k have nth: "listeners st ev ! k = cbs ! k"
    by (metis prefix_def nth_append)
  from k have mem: "cbs ! k \<in> set cbs" by simp
  obtain r st1 where c: "call (cbs ! k) args st = (r, st1)" by (cases "call (cbs ! k) args st")
  from assms(1) mem have sc: "steady ev args Q (cbs ! k)" by blast
  from sc [rule_format, of st] c
  have p1: "prefix (listeners st ev) (listeners st1 ev)"
    and s1: "set (listeners st1 ev) \<subseteq> set (listeners st ev) \<union> Q"
    and c1: "calls st1 = calls st @ trace (cbs ! k) args" by simp_all
  obtain st' where g: "guarded ev (cbs ! k) args st = (Returned, st')"
    and l': "listeners st' ev = listeners st1 ev" and c': "calls st' = calls st1"
    using c by (cases r) (simp_all add: guarded_def listeners_def)
  have pre: "prefix cbs (listeners st' ev)"
    using Suc.prems(1) p1 l' by (metis prefix_order.trans)
  have d: "d = length cbs - Suc k" using Suc.hyps(2) by simp
  have step: "forEach ev args k (length cbs) st = forEach ev args (Suc k) (length cbs) st'"
    using k len nth g by (subst forEach.simps) (simp add: listeners_def Let_def)
  let ?F = "snd (forEach ev args (Suc k) (length cbs) st')"
  from Suc.hyps(1) [OF d pre] k
  have ih1: "prefix (listeners st' ev) (listeners ?F ev)"
    and ih2: "set (listeners ?F ev) \<subseteq> set (listeners st' ev) \<union> Q"
    and ih3: "calls ?F = calls st' @ concat (map (\<lambda>c. trace c args) (drop (Suc k) cbs))"
    by simp_all
  have "prefix (listeners st ev) (listeners ?F ev)"
    using p1 l' ih1 by (metis prefix_order.trans)
  moreover have "set (listeners ?F ev) \<subseteq> set (listeners st ev) \<union> Q"
    using s1 l' ih2 by auto
  moreover have "calls ?F = calls st @ concat (map (\<lambda>c. trace c args) (drop k cbs))"
    using ih3 c' c1 k by (simp add: Cons_nth_drop_Suc [symmetric])
  ultimately show ?case by (simp only: step)
qed

lemma emit_steady:
  assumes "\<forall>c \<in> set (listeners st ev). steady ev args Q c"
  shows "prefix (listeners st ev) (listeners (snd (emit ev args st)) ev)
       \<and> set (listeners (snd (emit ev args st)) ev) \<subseteq> set (listeners st ev) \<union> Q
       \<and> calls (snd (emit ev args st))
           = calls st @ concat (map (\<lambda>c. trace c args) (listeners st ev))"
proof (cases "events st ev")
  case None
  then show ?thesis by (simp add: emit_def listeners_def)
next
  case (Some cbs)
  then have l: "listeners st ev = cbs" by (simp add: listeners_def)
  from assms l have a: "\<forall>c \<in> set cbs. steady ev args Q c" by simp
  have p: "prefix cbs (listeners st ev)" using l by simp
  from forEach_steady [OF a p, of 0] Some l show ?thesis by (simp add: emit_def)
qed

lemma emits_Suc: "emits (Suc n) ev args st = snd (emit ev args (emits n ev args st))"
  by (induction n arbitrary: st) simp_all

lemma emits_steady:
  assumes "\<forall>c \<in> set (listeners st ev) \<union> Q. steady ev args Q c"
  shows "prefix (listeners st ev) (listeners (emits n ev args st) ev)
       \<and> set (listeners (emits n ev args st) ev) \<subseteq> set (listeners st ev) \<union> Q
       \<and> calls (emits (Suc n) ev args st)
           = calls (emits n ev args st)
               @ concat (map (\<lambda>c. trace c args) (listeners (emits n ev args st) ev))"
proof (induction n)
  case 0
  from assms have "\<forall>c \<in> set (listeners st ev). steady ev args Q c" by blast
  from emit_steady [OF this] show ?case by simp
next
  case (Suc n)
  let ?a = "emits n ev args st" and ?b = "emits (Suc n) ev args st"
  from Suc have p: "prefix (listeners st ev) (listeners ?a ev)"
    and s: "set (listeners ?a ev) \<subseteq> set (listeners st ev) \<union> Q" by simp_all
  from s assms have a: "\<forall>c \<in> set (listeners ?a ev). steady ev args Q c" by blast
  have b: "?b = snd (emit ev args ?a)" by (rule emits_Suc)
  from emit_steady [OF a] b
  have p': "prefix (listeners ?a ev) (listeners ?b ev)"
    and s': "set (listeners ?b ev) \<subseteq> set (listeners ?a ev) \<union> Q" by simp_all
  from s' s assms have a': "\<forall>c \<in> set (listeners ?b ev). steady ev args Q c" by blast
  have "prefix (listeners st ev) (listeners ?b ev)"
    using p p' by (metis prefix_order.trans)
  moreover have "set (listeners ?b ev) \<subseteq> set (listeners st ev) \<union> Q"
    using s s' by auto
  moreover have "calls (emits (Suc (Suc n)) ev args st)
           = calls ?b @ concat (map (\<lambda>c. trace c args) (listeners ?b ev))"
    using emit_steady [OF a'] emits_Suc [of "Suc n" ev args st] by simp
  ultimately show ?case by blast
qed

text \<open>
  C1.  The claim: one \<open>emit\<close> calls every callback that was registered for the event when
  the emit began exactly once, in registration order, also when a callback unsubscribes
  itself or another one during that emit.  The code iterates over the live array: when the
  callback at index 0 removes itself, the array shifts down and the callback that followed
  it is never visited.  First conjunct: A unsubscribes itself, B is registered after A, and
  the emit calls A only.  Second conjunct: the same with a \<open>once\<close> closure in front of B.
\<close>

theorem emit_skips_callback_after_unsubscribe:
  "calls (snd (emit ''e'' [7]
      (on ''e'' (Callback 1 [])
        (on ''e'' (Callback 0 [BusOff ''e'' (UserRef 0)])
          (new_EventBus () :: (nat, unit) heap)))))
     = [(UserRef 0, [7])]
   \<and> calls (snd (emit ''e'' [7]
      (on ''e'' (Callback 1 [])
        (once ''e'' (Callback 0 [])
          (new_EventBus () :: (nat, unit) heap)))))
     = [(OnceRef 0, [7]), (UserRef 0, [7])]"
  by (simp add: emit_def on_def off_def once_def new_EventBus_def forEach.simps guarded_def
      splice1_def)

text \<open>
  C2.  The claim: when a registered callback throws, \<open>emit\<close> still calls every callback
  registered after it, with the same arguments and in registration order, and does not
  throw itself, for every list of registered callbacks.  The throw is caught, but the loop
  runs over the live array.  Callback 0 throws, callback 1 is registered with \<open>once\<close>
  after it, callback 2 is registered last.  The emit returns and logs the error of
  callback 0; it calls callback 0, the \<open>once\<close> closure and callback 1; the closure then
  removes itself, the array shifts down, and callback 2, registered after the throwing
  callback, is never called.
\<close>

theorem emit_skips_callback_after_throw_and_once:
  "fst (emit ''e'' [7]
      (on ''e'' (Callback 2 [])
        (once ''e'' (Callback 1 [])
          (on ''e'' (Callback 0 [Throw]) (new_EventBus () :: (nat, unit) heap))))) = Returned
   \<and> console (snd (emit ''e'' [7]
      (on ''e'' (Callback 2 [])
        (once ''e'' (Callback 1 [])
          (on ''e'' (Callback 0 [Throw]) (new_EventBus () :: (nat, unit) heap))))))
     = [(''e'', UserRef 0)]
   \<and> calls (snd (emit ''e'' [7]
      (on ''e'' (Callback 2 [])
        (once ''e'' (Callback 1 [])
          (on ''e'' (Callback 0 [Throw]) (new_EventBus () :: (nat, unit) heap))))))
     = [(UserRef 0, [7]), (OnceRef 0, [7]), (UserRef 1, [7])]"
  by (simp add: emit_def on_def off_def once_def new_EventBus_def forEach.simps guarded_def
      splice1_def)

text \<open>
  What does hold for a throwing callback: \<open>emit\<close> never throws, and when no callback
  registered for the event unsubscribes from that event while the emit runs, every
  registered callback is called exactly once with the arguments of the emit, in
  registration order, whether or not callbacks before it have thrown.
\<close>

lemma emit_calls_every_callback_that_keeps:
  assumes "\<forall>c \<in> set (listeners st event). keeps event c"
  shows "fst (emit event args st) = Returned"
    and "calls (snd (emit event args st))
           = calls st @ concat (map (\<lambda>c. trace c args) (listeners st event))"
proof -
  show "fst (emit event args st) = Returned" by (rule emit_Returned)
  from assms keeps_steady [of event _ args]
  have "\<forall>c \<in> set (listeners st event). steady event args (Collect (keeps event)) c" by blast
  from emit_steady [OF this]
  show "calls (snd (emit event args st))
           = calls st @ concat (map (\<lambda>c. trace c args) (listeners st event))" by simp
qed

text \<open>
  C4.  The claim: after \<open>once(event, cb)\<close>, two emits call \<open>cb\<close> exactly once in total, for
  every callback.  The closure calls \<open>cb\<close> first and unsubscribes afterwards, so when \<open>cb\<close>
  throws the closure stays registered: on a new bus, \<open>once\<close> with a callback that throws
  and two emits call the callback twice.
\<close>

theorem once_throwing_callback_called_twice:
  "calls (emits 2 ''e'' []
      (once ''e'' (Callback 0 [Throw]) (new_EventBus () :: (nat, unit) heap)))
     = [(OnceRef 0, []), (UserRef 0, []), (OnceRef 0, []), (UserRef 0, [])]"
  by (simp add: numeral_2_eq_2 emit_def on_def off_def once_def new_EventBus_def forEach.simps
      guarded_def splice1_def)

text \<open>
  What does hold for \<open>once\<close>: a callback that returns and does not call the bus, registered
  with \<open>once\<close> for an event without other callbacks, is called by the first emit only.
\<close>

lemma run_inert:
  "list_all inert_stmt body \<Longrightarrow>
     events (snd (run body args st)) = events st \<and> calls (snd (run body args st)) = calls st"
proof (induction body arbitrary: st)
  case Nil
  then show ?case by simp
next
  case (Cons s ss)
  then show ?case
    by (cases s) (auto split: prod.splits outcome.splits)
qed

lemma call_inert:
  "inert c \<Longrightarrow> events (snd (call c args st)) = events st
     \<and> calls (snd (call c args st)) = calls st @ trace c args"
  by (cases c) (simp_all add: run_inert)

lemma once_returning_callback_called_once:
  assumes "listeners st ev = []" and "inert cb" and "\<forall>s. fst (call cb args s) = Returned"
  shows "calls (emits 2 ev args (once ev cb st))
           = calls st @ [(OnceRef (fresh st), args)] @ trace cb args"
proof -
  let ?w = "OnceCallback (fresh st) ev cb"
  let ?init = "once ev cb st"
  let ?entered = "?init\<lparr>calls := calls ?init @ [(OnceRef (fresh st), args)]\<rparr>"
  have ev0: "events ?init ev = Some [?w]"
    using assms(1) by (auto simp: once_def on_def listeners_def Let_def split: option.splits)
  have cl0: "calls ?init = calls st"
    by (simp add: once_def on_def Let_def)
  obtain r st' where c: "call cb args ?entered = (r, st')" by (cases "call cb args ?entered")
  with assms(3) have r: "r = Returned" by (metis fst_conv)
  from call_inert [OF assms(2), of args ?entered] c ev0 cl0
  have e': "events st' ev = Some [?w]"
    and c': "calls st' = calls st @ [(OnceRef (fresh st), args)] @ trace cb args" by simp_all
  have g: "guarded ev ?w args ?init = (Returned, off ev (OnceRef (fresh st)) st')"
    using c r by (simp add: guarded_def)
  have e'': "events (off ev (OnceRef (fresh st)) st') ev = Some []"
    using e' by (simp add: off_def splice1_def)
  have "emit ev args ?init = (Returned, off ev (OnceRef (fresh st)) st')"
    using ev0 g e'' by (simp add: emit_def forEach.simps)
  moreover have "emit ev args (off ev (OnceRef (fresh st)) st')
      = (Returned, off ev (OnceRef (fresh st)) st')"
    using e'' by (simp add: emit_def forEach.simps)
  ultimately show ?thesis using c' by (simp add: numeral_2_eq_2)
qed

lemma emit_single_effect:
  assumes "events st ev = Some [Callback n [Effect f]]"
  shows "world (snd (emit ev args st)) = snd (f args (world st))"
proof -
  obtain r w where f: "f args (world st) = (r, w)" by (cases "f args (world st)")
  have "world (snd (guarded ev (Callback n [Effect f]) args st)) = w"
    and "fst (guarded ev (Callback n [Effect f]) args st) = Returned"
    using f by (cases r; simp add: guarded_def)+
  moreover obtain st' where g: "guarded ev (Callback n [Effect f]) args st = (Returned, st')"
    using calculation(2) by (cases "guarded ev (Callback n [Effect f]) args st") simp
  ultimately have w: "world st' = w" by simp
  have "emit ev args st = forEach ev args 1 1 st'"
    using assms g by (simp add: emit_def forEach.simps [of ev args 0])
  then have "emit ev args st = (Returned, st')" by (simp add: forEach.simps)
  with w f show ?thesis by simp
qed

text \<open>
  C10, the claim as stated fails.  First conjunct: a callback that throws at its first
  call and returns at its second is registered with \<open>once\<close>; the first emit leaves the
  closure registered, the second emit calls the callback again, the callback returns and
  the closure unregisters itself; the third emit calls nothing.  Second conjunct, the
  defect of C1 again: a callback that unsubscribes itself is registered before the
  \<open>once\<close> closure of a callback that always throws; the emit calls the first callback,
  the array shifts down, and neither the closure nor its callback is called in that emit.
\<close>

theorem once_callback_unregistered_when_it_returns:
  "calls (emits 3 ''e'' [7] (once ''e'' throws_first_time (new_EventBus 0 :: (nat, nat) heap)))
     = [(OnceRef 0, [7]), (UserRef 0, [7]), (OnceRef 0, [7]), (UserRef 0, [7])]
   \<and> listeners (emits 1 ''e'' [7] (once ''e'' throws_first_time (new_EventBus 0 :: (nat, nat) heap)))
        ''e''
     = [OnceCallback 0 ''e'' throws_first_time]
   \<and> listeners (emits 2 ''e'' [7] (once ''e'' throws_first_time (new_EventBus 0 :: (nat, nat) heap)))
        ''e''
     = []
   \<and> calls (snd (emit ''e'' [7]
        (once ''e'' (Callback 0 [Throw])
          (on ''e'' (Callback 1 [BusOff ''e'' (UserRef 1)])
            (new_EventBus () :: (nat, unit) heap)))))
     = [(UserRef 1, [7])]"
  by (simp add: numeral_3_eq_3 numeral_2_eq_2 throws_first_time_def listeners_def emit_def on_def
      off_def once_def new_EventBus_def forEach.simps guarded_def splice1_def)

text \<open>
  C10, as amended.  A callback \<open>cb\<close> is registered with \<open>once\<close>.  First conjunct: when a
  call of \<open>cb\<close> made by the closure throws, the guarded call of the closure in \<open>emit\<close>
  returns, and the state it leaves is the state that \<open>cb\<close> left with the error logged:
  the closure has not run its \<open>off\<close>.  Second conjunct: \<open>cb\<close> throws whenever it is
  called, and neither \<open>cb\<close> nor the callbacks registered for the event unsubscribe from
  the event.  Then after any number \<open>n\<close> of emits the callbacks registered before and
  the closure are still registered, in their places, and the next emit calls every
  registered callback exactly once, in order, the closure and \<open>cb\<close> among them.
\<close>

theorem once_throwing_callback_stays_registered:
  "(fst (call cb args (s\<lparr>calls := calls s @ [(OnceRef k, args)]\<rparr>)) = Thrown \<longrightarrow>
      guarded ev (OnceCallback k ev cb) args s
        = (Returned,
           (snd (call cb args (s\<lparr>calls := calls s @ [(OnceRef k, args)]\<rparr>)))
             \<lparr>console := console (snd (call cb args (s\<lparr>calls := calls s @ [(OnceRef k, args)]\<rparr>)))
                           @ [(ev, OnceRef k)]\<rparr>))
   \<and> ((\<forall>s. fst (call cb args s) = Thrown) \<longrightarrow> keeps ev cb \<longrightarrow>
       (\<forall>c \<in> set (listeners st ev). keeps ev c) \<longrightarrow>
         prefix (listeners st ev @ [OnceCallback (fresh st) ev cb])
                (listeners (emits n ev args (once ev cb st)) ev)
       \<and> calls (emits (Suc n) ev args (once ev cb st))
           = calls (emits n ev args (once ev cb st))
               @ concat (map (\<lambda>c. trace c args) (listeners (emits n ev args (once ev cb st)) ev)))"
proof (intro conjI impI)
  assume "fst (call cb args (s\<lparr>calls := calls s @ [(OnceRef k, args)]\<rparr>)) = Thrown"
  then obtain st' where
    "call cb args (s\<lparr>calls := calls s @ [(OnceRef k, args)]\<rparr>) = (Thrown, st')"
    by (cases "call cb args (s\<lparr>calls := calls s @ [(OnceRef k, args)]\<rparr>)") simp
  then show "guarded ev (OnceCallback k ev cb) args s
        = (Returned,
           (snd (call cb args (s\<lparr>calls := calls s @ [(OnceRef k, args)]\<rparr>)))
             \<lparr>console := console (snd (call cb args (s\<lparr>calls := calls s @ [(OnceRef k, args)]\<rparr>)))
                           @ [(ev, OnceRef k)]\<rparr>)"
    by (simp add: guarded_def)
next
  assume thr: "\<forall>s. fst (call cb args s) = Thrown" and kcb: "keeps ev cb"
    and kl: "\<forall>c \<in> set (listeners st ev). keeps ev c"
  let ?w = "OnceCallback (fresh st) ev cb"
  let ?init = "once ev cb st"
  have l: "listeners ?init ev = listeners st ev @ [?w]"
    by (simp add: once_def on_def listeners_def Let_def)
  have "\<forall>c \<in> set (listeners ?init ev) \<union> Collect (keeps ev). steady ev args (Collect (keeps ev)) c"
  proof
    fix c assume "c \<in> set (listeners ?init ev) \<union> Collect (keeps ev)"
    with l kl have "keeps ev c \<or> c = ?w" by auto
    then show "steady ev args (Collect (keeps ev)) c"
      using keeps_steady [of ev c args] once_throwing_steady [OF kcb thr, of "fresh st"] by blast
  qed
  from emits_steady [OF this, of n] l
  show "prefix (listeners st ev @ [?w]) (listeners (emits n ev args ?init) ev)"
    and "calls (emits (Suc n) ev args ?init)
           = calls (emits n ev args ?init)
               @ concat (map (\<lambda>c. trace c args) (listeners (emits n ev args ?init) ev))"
    by simp_all
qed

theorem once_throwing_callback_stays_registered_witness:
  "fst (guarded ''e'' (OnceCallback 0 ''e'' (Callback 0 [Throw])) [7]
      (once ''e'' (Callback 0 [Throw])
        (on ''e'' (Callback 1 []) (new_EventBus () :: (nat, unit) heap)))) = Returned
   \<and> listeners (snd (guarded ''e'' (OnceCallback 0 ''e'' (Callback 0 [Throw])) [7]
      (once ''e'' (Callback 0 [Throw])
        (on ''e'' (Callback 1 []) (new_EventBus () :: (nat, unit) heap))))) ''e''
     = [Callback 1 [], OnceCallback 0 ''e'' (Callback 0 [Throw])]
   \<and> console (snd (guarded ''e'' (OnceCallback 0 ''e'' (Callback 0 [Throw])) [7]
      (once ''e'' (Callback 0 [Throw])
        (on ''e'' (Callback 1 []) (new_EventBus () :: (nat, unit) heap)))))
     = [(''e'', OnceRef 0)]
   \<and> listeners (emits 2 ''e'' [7]
      (once ''e'' (Callback 0 [Throw])
        (on ''e'' (Callback 1 []) (new_EventBus () :: (nat, unit) heap)))) ''e''
     = [Callback 1 [], OnceCallback 0 ''e'' (Callback 0 [Throw])]
   \<and> calls (emits 3 ''e'' [7]
      (once ''e'' (Callback 0 [Throw])
        (on ''e'' (Callback 1 []) (new_EventBus () :: (nat, unit) heap))))
     = [(UserRef 1, [7]), (OnceRef 0, [7]), (UserRef 0, [7]),
        (UserRef 1, [7]), (OnceRef 0, [7]), (UserRef 0, [7]),
        (UserRef 1, [7]), (OnceRef 0, [7]), (UserRef 0, [7])]"
  using once_throwing_callback_stays_registered
    [where cb = "Callback 0 [Throw]"
       and st = "on ''e'' (Callback 1 []) (new_EventBus () :: (nat, unit) heap)"
       and s = "once ''e'' (Callback 0 [Throw])
                  (on ''e'' (Callback 1 []) (new_EventBus () :: (nat, unit) heap))"
       and ev = "''e''" and args = "[7]" and n = 2 and k = 0]
  by (simp add: numeral_3_eq_3 numeral_2_eq_2 listeners_def emit_def on_def off_def once_def
      new_EventBus_def forEach.simps guarded_def splice1_def)

section \<open>Properties of the coordinator\<close>

lemma Map_set_fresh: "k \<notin> fst ` set kvs \<Longrightarrow> Map_set k v kvs = kvs @ [(k, v)]"
  by (induction kvs) auto

lemma initializeModule_settles:
  assumes "attempt_of doc d \<noteq> InitPending" and "name d \<notin> fst ` set (modules a)"
  shows "\<exists>a'. initializeModule doc d a = Some a'
           \<and> modules a' = modules a @ registered doc [d]
           \<and> steps a' = steps a @ steps_of doc d"
  using assms
  by (auto simp: initializeModule_def attempt_of_def registered_def steps_of_def Let_def
        Map_set_fresh split: sum.splits init_result.splits)

lemma fst_registered: "fst ` set (registered doc ds) \<subseteq> name ` set ds"
  by (induction ds) (auto simp: registered_def split: attempt.splits)

lemma registered_Cons: "registered doc (d # ds) = registered doc [d] @ registered doc ds"
  by (simp add: registered_def)

lemma initializeModules_settles:
  assumes "\<forall>d \<in> set ds. attempt_of doc d \<noteq> InitPending"
    and "distinct (map name ds)"
    and "name ` set ds \<inter> fst ` set (modules a) = {}"
  shows "\<exists>a'. initializeModules doc ds a = Some a'
           \<and> modules a' = modules a @ registered doc ds
           \<and> steps a' = steps a @ concat (map (steps_of doc) ds)"
  using assms
proof (induction ds arbitrary: a)
  case Nil
  then show ?case by (simp add: registered_def)
next
  case (Cons d ds)
  from Cons.prems have np: "attempt_of doc d \<noteq> InitPending" and fr: "name d \<notin> fst ` set (modules a)"
    by auto
  from initializeModule_settles [OF np fr] obtain a1 where
    a1: "initializeModule doc d a = Some a1"
    and m1: "modules a1 = modules a @ registered doc [d]"
    and s1: "steps a1 = steps a @ steps_of doc d" by blast
  have sub: "fst ` set (registered doc [d]) \<subseteq> {name d}"
    using fst_registered [of doc "[d]"] by simp
  have nd: "name d \<notin> name ` set ds" using Cons.prems(2) by simp
  have old: "name ` set ds \<inter> fst ` set (modules a) = {}" using Cons.prems(3) by auto
  have "fst ` set (modules a1) = fst ` set (modules a) \<union> fst ` set (registered doc [d])"
    by (simp add: m1 image_Un)
  with sub have up: "fst ` set (modules a1) \<subseteq> fst ` set (modules a) \<union> {name d}"
    by blast
  have disj: "name ` set ds \<inter> fst ` set (modules a1) = {}"
  proof (rule ccontr)
    assume "name ` set ds \<inter> fst ` set (modules a1) \<noteq> {}"
    then obtain k where k1: "k \<in> name ` set ds" and k2: "k \<in> fst ` set (modules a1)"
      by (meson disjoint_iff)
    from k2 up have "k \<in> fst ` set (modules a) \<or> k = name d" by (meson UnE singletonD subsetD)
    with k1 nd old show False by (meson disjoint_iff)
  qed
  have np': "\<forall>d \<in> set ds. attempt_of doc d \<noteq> InitPending" using Cons.prems(1) by simp
  have dist': "distinct (map name ds)" using Cons.prems(2) by simp
  from Cons.IH [OF np' dist' disj] obtain a' where
    "initializeModules doc ds a1 = Some a'"
    "modules a' = modules a1 @ registered doc ds"
    "steps a' = steps a1 @ concat (map (steps_of doc) ds)" by blast
  with a1 m1 s1 show ?case
    by (simp add: registered_Cons [of doc d ds])
qed


lemma registered_single:
  "registered doc [d] = (case attempt_of doc d of Ready m \<Rightarrow> [(name d, m)] | other \<Rightarrow> [])"
  by (simp add: registered_def)

lemma map_of_registered:
  assumes "distinct (map name ds)" and "d \<in> set ds"
  shows "map_of (registered doc ds) (name d)
           = (case attempt_of doc d of Ready m \<Rightarrow> Some m | other \<Rightarrow> None)"
  using assms
proof (induction ds)
  case Nil
  then show ?case by simp
next
  case (Cons x xs)
  have nx: "name x \<notin> name ` set xs" using Cons.prems(1) by simp
  have notin: "\<And>y. y \<in> set xs \<Longrightarrow> name y \<noteq> name x"
  proof
    fix y assume "y \<in> set xs" and "name y = name x"
    then have "name x \<in> name ` set xs" by (metis imageI)
    with nx show False by simp
  qed
  have none: "name x \<notin> fst ` set (registered doc xs)"
    using fst_registered [of doc xs] Cons.prems(1) by auto
  have mn: "map_of (registered doc xs) (name x) = None"
    using none by (simp add: map_of_eq_None_iff)
  show ?case
  proof (cases "d = x")
    case True
    with mn show ?thesis
      by (cases "attempt_of doc x") (simp_all add: registered_Cons [of doc x xs] registered_single)
  next
    case False
    with Cons.prems have dx: "d \<in> set xs" by simp
    with notin have ne: "name d \<noteq> name x" by blast
    have "distinct (map name xs)" using Cons.prems(1) by simp
    with Cons.IH dx have "map_of (registered doc xs) (name d)
           = (case attempt_of doc d of Ready m \<Rightarrow> Some m | other \<Rightarrow> None)" by simp
    with ne show ?thesis
      by (cases "attempt_of doc x") (simp_all add: registered_Cons [of doc x xs] registered_single)
  qed
qed

lemma moduleConfigs_distinct:
  "distinct (map name (moduleConfigs Timeline InteractiveMap NewsIntegration SatelliteImagery
      SourcesManager))"
  by (simp add: moduleConfigs_def)

text \<open>
  C3.  For every list of module descriptors with distinct names in which every \<open>init\<close>
  that is awaited settles, \<open>initializeModules\<close> on a new coordinator completes.  Every
  descriptor gets its constructor called exactly once, and its \<open>init\<close> called exactly once
  when the constructor returned, in the order of the list, whatever happens to the other
  modules.  The registry holds, in that order, exactly the modules whose constructor
  returned and whose \<open>init\<close> resolved: a module whose constructor threw or whose \<open>init\<close>
  rejected is absent, every other module is present.
\<close>

theorem initializeModules_isolates_failures:
  assumes "\<forall>d \<in> set ds. attempt_of doc d \<noteq> InitPending"
    and "distinct (map name ds)"
  shows "\<exists>a'. initializeModules doc ds new_GazaWarDocumentation = Some a'
           \<and> steps a' = concat (map (steps_of doc) ds)
           \<and> modules a' = registered doc ds
           \<and> (\<forall>d \<in> set ds. Map_get (modules a') (name d)
                  = (case attempt_of doc d of Ready m \<Rightarrow> Some m | other \<Rightarrow> None))"
proof -
  from initializeModules_settles [OF assms, of new_GazaWarDocumentation]
  obtain a' where a': "initializeModules doc ds new_GazaWarDocumentation = Some a'"
    "modules a' = registered doc ds" "steps a' = concat (map (steps_of doc) ds)"
    by (auto simp: new_GazaWarDocumentation_def)
  moreover have "\<forall>d \<in> set ds. Map_get (modules a') (name d)
                  = (case attempt_of doc d of Ready m \<Rightarrow> Some m | other \<Rightarrow> None)"
    using a'(2) map_of_registered [OF assms(2)] by (simp add: Map_get_def)
  ultimately show ?thesis by blast
qed

theorem initializeModules_isolates_failures_witness:
  "\<exists>a'. initializeModules [''#a'' \<mapsto> 1, ''#b'' \<mapsto> 2, ''#c'' \<mapsto> 3]
       [\<lparr>name = ''A'', moduleClass = \<lparr>construct = construct_Timeline, init = Resolves\<rparr>,
          container = ''#a'', config = no_config\<rparr>,
        \<lparr>name = ''B'', moduleClass = \<lparr>construct = construct_InteractiveMap,
            init = (\<lambda>m. Rejects (Error ''init failed''))\<rparr>,
          container = ''#b'', config = no_config\<rparr>,
        \<lparr>name = ''C'', moduleClass = \<lparr>construct = construct_NewsIntegration, init = Resolves\<rparr>,
          container = ''#c'', config = no_config\<rparr>]
       new_GazaWarDocumentation = Some a'
     \<and> map fst (modules a') = [''A'', ''C'']
     \<and> steps a' = [ConstructorCalled ''A'', InitCalled ''A'', ConstructorCalled ''B'',
          InitCalled ''B'', ConstructorCalled ''C'', InitCalled ''C'']"
  using initializeModules_isolates_failures
    [of "[\<lparr>name = ''A'', moduleClass = \<lparr>construct = construct_Timeline, init = Resolves\<rparr>,
          container = ''#a'', config = no_config\<rparr>,
        \<lparr>name = ''B'', moduleClass = \<lparr>construct = construct_InteractiveMap,
            init = (\<lambda>m. Rejects (Error ''init failed''))\<rparr>,
          container = ''#b'', config = no_config\<rparr>,
        \<lparr>name = ''C'', moduleClass = \<lparr>construct = construct_NewsIntegration, init = Resolves\<rparr>,
          container = ''#c'', config = no_config\<rparr>]"
        "[''#a'' \<mapsto> 1, ''#b'' \<mapsto> 2, ''#c'' \<mapsto> 3]"]
  by (auto simp: attempt_of_def steps_of_def registered_def construct_Timeline_def
        construct_InteractiveMap_def construct_NewsIntegration_def new_Timeline_def
        new_InteractiveMap_def new_NewsIntegration_def)

lemma source_constructors_throw:
  assumes "c \<in> set source_constructors" and "doc selector = None"
  shows "\<exists>e. c doc selector cfg = Inl e"
  using assms
  by (auto simp: source_constructors_def construct_Timeline_def construct_InteractiveMap_def
        construct_NewsIntegration_def construct_SatelliteImagery_def construct_SourcesManager_def
        new_Timeline_def new_InteractiveMap_def new_NewsIntegration_def new_SatelliteImagery_def
        new_SourcesManager_def)

lemma InitCalled_steps_of:
  "InitCalled n \<in> set (steps_of doc d) \<Longrightarrow>
     n = name d \<and> (\<forall>e. attempt_of doc d \<noteq> ConstructorThrew e)"
  by (auto simp: steps_of_def split: attempt.splits)

text \<open>
  C5.  The constructor of each of the five module classes (\<open>Timeline\<close>,
  \<open>InteractiveMap\<close>, \<open>NewsIntegration\<close>, \<open>SatelliteImagery\<close>, \<open>SourcesManager\<close>) throws
  when the page has no element for the container selector.  For every descriptor with one
  of these classes and such a selector, the constructor throws, and the loop body, in
  whatever state the coordinator is, logs the failure and calls the constructor only: it
  does not call \<open>init\<close>.  In the whole loop, on a list that holds the descriptor, with
  distinct names and in which every awaited \<open>init\<close> settles, the constructor of that
  module is called, its \<open>init\<close> is never called, and the module is not in the registry.
\<close>

theorem missing_container_never_initialized:
  assumes "construct (moduleClass d) \<in> set source_constructors"
    and "doc (container d) = None"
  shows "\<exists>e. construct (moduleClass d) doc (container d) (config d) = Inl e
           \<and> initializeModule doc d a
               = Some (a\<lparr>journal := journal a @
                            [Info (''Initializing '' @ name d @ '' module...''), Failure (name d) e],
                         steps := steps a @ [ConstructorCalled (name d)]\<rparr>)
           \<and> (d \<in> set ds \<longrightarrow> distinct (map name ds) \<longrightarrow>
                (\<forall>d' \<in> set ds. attempt_of doc d' \<noteq> InitPending) \<longrightarrow>
                  (\<exists>a'. initializeModules doc ds new_GazaWarDocumentation = Some a'
                     \<and> ConstructorCalled (name d) \<in> set (steps a')
                     \<and> InitCalled (name d) \<notin> set (steps a')
                     \<and> Map_get (modules a') (name d) = None))"
proof -
  from source_constructors_throw
         [of "construct (moduleClass d)" doc "container d" "config d", OF assms(1,2)]
  obtain e where
    e: "construct (moduleClass d) doc (container d) (config d) = Inl e" by blast
  then have att: "attempt_of doc d = ConstructorThrew e" by (simp add: attempt_of_def)
  have one: "initializeModule doc d a
               = Some (a\<lparr>journal := journal a @
                            [Info (''Initializing '' @ name d @ '' module...''), Failure (name d) e],
                         steps := steps a @ [ConstructorCalled (name d)]\<rparr>)"
    using e by (simp add: initializeModule_def Let_def)
  have loop: "\<exists>a'. initializeModules doc ds new_GazaWarDocumentation = Some a'
                     \<and> ConstructorCalled (name d) \<in> set (steps a')
                     \<and> InitCalled (name d) \<notin> set (steps a')
                     \<and> Map_get (modules a') (name d) = None"
    if mem: "d \<in> set ds" and dist: "distinct (map name ds)"
      and settle: "\<forall>d' \<in> set ds. attempt_of doc d' \<noteq> InitPending"
  proof -
    from initializeModules_settles [OF settle dist, of new_GazaWarDocumentation]
    obtain a' where a': "initializeModules doc ds new_GazaWarDocumentation = Some a'"
      and m: "modules a' = registered doc ds"
      and st: "steps a' = concat (map (steps_of doc) ds)"
      by (auto simp: new_GazaWarDocumentation_def)
    have called: "ConstructorCalled (name d) \<in> set (steps a')"
      using st mem att by (auto simp: steps_of_def intro!: bexI [of _ d])
    have not_init: "InitCalled (name d) \<notin> set (steps a')"
    proof
      assume "InitCalled (name d) \<in> set (steps a')"
      with st obtain d' where d': "d' \<in> set ds" and i: "InitCalled (name d) \<in> set (steps_of doc d')"
        by auto
      from InitCalled_steps_of [OF i] have n: "name d = name d'"
        and ne: "\<forall>e. attempt_of doc d' \<noteq> ConstructorThrew e" by simp_all
      from dist have "inj_on name (set ds)" by (simp add: distinct_map)
      with n d' mem have "d' = d" by (simp add: inj_on_def)
      with ne att show False by simp
    qed
    have "Map_get (modules a') (name d) = None"
      using m map_of_registered [OF dist mem, of doc] att by (simp add: Map_get_def)
    with a' called not_init show ?thesis by blast
  qed
  from e one loop show ?thesis by blast
qed

theorem missing_container_never_initialized_witness:
  "\<exists>e a'. construct_SourcesManager
          [''#timeline-container'' \<mapsto> 1, ''#map'' \<mapsto> 2, ''#news-grid'' \<mapsto> 3,
           ''#satellite-viewer'' \<mapsto> 4] ''#sources'' no_config = Inl e
     \<and> initializeModules
          [''#timeline-container'' \<mapsto> 1, ''#map'' \<mapsto> 2, ''#news-grid'' \<mapsto> 3,
           ''#satellite-viewer'' \<mapsto> 4]
          (moduleConfigs \<lparr>construct = construct_Timeline, init = Resolves\<rparr>
             \<lparr>construct = construct_InteractiveMap, init = Resolves\<rparr>
             \<lparr>construct = construct_NewsIntegration, init = Resolves\<rparr>
             \<lparr>construct = construct_SatelliteImagery, init = Resolves\<rparr>
             \<lparr>construct = construct_SourcesManager, init = Resolves\<rparr>)
          new_GazaWarDocumentation = Some a'
     \<and> ConstructorCalled ''sources'' \<in> set (steps a')
     \<and> InitCalled ''sources'' \<notin> set (steps a')
     \<and> Map_get (modules a') ''sources'' = None"
  using missing_container_never_initialized
    [where d = "\<lparr>name = ''sources'',
          moduleClass = \<lparr>construct = construct_SourcesManager, init = Resolves\<rparr>,
          container = ''#sources'', config = no_config\<rparr>"
       and doc = "[''#timeline-container'' \<mapsto> 1, ''#map'' \<mapsto> 2, ''#news-grid'' \<mapsto> 3,
          ''#satellite-viewer'' \<mapsto> 4]"
       and ds = "moduleConfigs \<lparr>construct = construct_Timeline, init = Resolves\<rparr>
             \<lparr>construct = construct_InteractiveMap, init = Resolves\<rparr>
             \<lparr>construct = construct_NewsIntegration, init = Resolves\<rparr>
             \<lparr>construct = construct_SatelliteImagery, init = Resolves\<rparr>
             \<lparr>construct = construct_SourcesManager, init = Resolves\<rparr>"
       and a = new_GazaWarDocumentation]
  by (simp add: source_constructors_def moduleConfigs_def attempt_of_def construct_Timeline_def
        construct_InteractiveMap_def construct_NewsIntegration_def construct_SatelliteImagery_def
        construct_SourcesManager_def new_Timeline_def new_InteractiveMap_def
        new_NewsIntegration_def new_SatelliteImagery_def new_SourcesManager_def)

section \<open>Properties of the modules\<close>

lemma render_fallback:
  "render (setupControls (loadFallbackData t) (createTimelineStructure p)) (loadFallbackData t)
     = (Returned, (loadFallbackData t)\<lparr>svg := True, eventElements := eventElements t @ [0, 1, 2]\<rparr>)"
proof -
  have ids: "''timeline-svg-container''
      \<in> set (element_ids (setupControls (loadFallbackData t) (createTimelineStructure p)))"
    by (simp add: setupControls_def createTimelineStructure_def Let_def)
  have up: "[0 ..< length (timeline_events (loadFallbackData t))] = [0, 1, 2]"
    by (simp add: loadFallbackData_def fallback_events_def upt_rec)
  have src: "updateEventDisplay q ((loadFallbackData t)\<lparr>svg := b, eventElements := es\<rparr>) = Returned"
    for q b es
    by (simp add: updateEventDisplay_def loadFallbackData_def fallback_events_def nth_Cons'
          split: sources_value.splits)
  have ee: "eventElements (loadFallbackData t) = eventElements t"
    by (simp add: loadFallbackData_def)
  show ?thesis
    using ids by (simp add: render_def Let_def up src ee)
qed

lemma loadData_unusable: "unusable r \<Longrightarrow> loadData r t = loadFallbackData t"
  by (cases r rule: unusable.cases) (simp_all add: loadData_def process_events_def)

text \<open>
  C6, as amended.  First conjunct: when the response cannot be used (the request rejects,
  the data is neither an array nor an object with a \<open>timeline.events\<close> array, or the array
  holds a null element), \<open>init\<close> of the timeline resolves, whatever the page and the
  module were before; the events are the fallback events, the start and end dates are the
  dates of the first and the last fallback event, and the page is built for them.  Second
  conjunct: when the data is an array, or holds one as \<open>timeline.events\<close>, without null
  element, \<open>loadData\<close> does not fall back: the elements without a valid date are dropped
  and the others are kept, sorted by date.
\<close>

theorem timeline_init_falls_back:
  "(unusable r \<longrightarrow>
      timeline_init (Some r) p t
        = Resolves
            (t\<lparr>timeline_events := fallback_events,
               startDate := Some (Some 1696636800000),
               endDate := Some (Some 1697328000000),
               svg := True,
               eventElements := eventElements t @ [0, 1, 2]\<rparr>,
             setupEventListeners (setupControls (loadFallbackData t) (createTimelineStructure p))))
   \<and> (eventsData r' = Inr xs \<longrightarrow> None \<notin> set xs \<longrightarrow>
        timeline_events (loadData r' t')
          = sort_key (\<lambda>e. the (event_date e)) (filter valid_date (map the xs)))"
proof (intro conjI impI)
  assume u: "unusable r"
  have "loadFallbackData t\<lparr>svg := True, eventElements := eventElements t @ [0, 1, 2]\<rparr>
          = t\<lparr>timeline_events := fallback_events,
               startDate := Some (Some 1696636800000),
               endDate := Some (Some 1697328000000),
               svg := True,
               eventElements := eventElements t @ [0, 1, 2]\<rparr>"
    by (simp add: loadFallbackData_def fallback_events_def)
  then show "timeline_init (Some r) p t
        = Resolves
            (t\<lparr>timeline_events := fallback_events,
               startDate := Some (Some 1696636800000),
               endDate := Some (Some 1697328000000),
               svg := True,
               eventElements := eventElements t @ [0, 1, 2]\<rparr>,
             setupEventListeners (setupControls (loadFallbackData t) (createTimelineStructure p)))"
    by (simp add: timeline_init_def Let_def loadData_unusable [OF u] render_fallback)
next
  assume "eventsData r' = Inr xs" and "None \<notin> set xs"
  then show "timeline_events (loadData r' t')
          = sort_key (\<lambda>e. the (event_date e)) (filter valid_date (map the xs))"
    by (simp add: loadData_def process_events_def Let_def)
qed

theorem timeline_init_falls_back_witness:
  "timeline_init (Some (Fulfilled JsonOther))
      \<lparr>element_ids = [''timeline-container'', ''timeline-slider''], dom_listeners = [],
        slider = None\<rparr>
      \<lparr>timeline_container = 1, startDate = None, endDate = None, timeline_events = [],
        currentIndex = 0, isPlaying = False, playInterval = None, svg = False,
        eventElements = []\<rparr>
     = Resolves
         (\<lparr>timeline_container = 1, startDate = Some (Some 1696636800000),
            endDate = Some (Some 1697328000000), timeline_events = fallback_events,
            currentIndex = 0, isPlaying = False, playInterval = None, svg = True,
            eventElements = [0, 1, 2]\<rparr>,
          \<lparr>element_ids = [''timeline-container'', ''timeline-slider'',
              ''timeline-svg-container'', ''timeline-event-details'', ''timeline-event-title'',
              ''timeline-event-date'', ''timeline-event-description'', ''timeline-event-meta'',
              ''timeline-event-type'', ''timeline-event-sources''],
            dom_listeners = [(''timeline-slider'', ''input''), (''window'', ''resize''),
              (''document'', ''keydown'')],
            slider = Some (0, 2, 0)\<rparr>)
   \<and> map event_id (timeline_events (loadData
        (Fulfilled (JsonArray
           [Some \<lparr>event_id = ''b'', event_date = Some 1696723200000, title = ''B'',
                   sources = NoSources\<rparr>,
            Some \<lparr>event_id = ''x'', event_date = None, title = ''X'', sources = NoSources\<rparr>,
            Some \<lparr>event_id = ''a'', event_date = Some 1696636800000, title = ''A'',
                   sources = NoSources\<rparr>]))
        \<lparr>timeline_container = 1, startDate = None, endDate = None, timeline_events = [],
          currentIndex = 0, isPlaying = False, playInterval = None, svg = False,
          eventElements = []\<rparr>))
     = [''a'', ''b'']"
  using timeline_init_falls_back
    [of "Fulfilled JsonOther"
      "\<lparr>element_ids = [''timeline-container'', ''timeline-slider''], dom_listeners = [],
        slider = None\<rparr>"
      "\<lparr>timeline_container = 1, startDate = None, endDate = None, timeline_events = [],
        currentIndex = 0, isPlaying = False, playInterval = None, svg = False,
        eventElements = []\<rparr>"
      "Fulfilled (JsonArray
           [Some \<lparr>event_id = ''b'', event_date = Some 1696723200000, title = ''B'',
                   sources = NoSources\<rparr>,
            Some \<lparr>event_id = ''x'', event_date = None, title = ''X'', sources = NoSources\<rparr>,
            Some \<lparr>event_id = ''a'', event_date = Some 1696636800000, title = ''A'',
                   sources = NoSources\<rparr>])"
      "[Some \<lparr>event_id = ''b'', event_date = Some 1696723200000, title = ''B'',
                   sources = NoSources\<rparr>,
        Some \<lparr>event_id = ''x'', event_date = None, title = ''X'', sources = NoSources\<rparr>,
        Some \<lparr>event_id = ''a'', event_date = Some 1696636800000, title = ''A'',
                   sources = NoSources\<rparr>]"
      "\<lparr>timeline_container = 1, startDate = None, endDate = None, timeline_events = [],
        currentIndex = 0, isPlaying = False, playInterval = None, svg = False,
        eventElements = []\<rparr>"]
  by (simp add: setupEventListeners_def setupControls_def createTimelineStructure_def
        loadFallbackData_def fallback_events_def valid_date_def Let_def)

text \<open>
  C6, the claim as stated fails: an array whose only element has no usable date is
  malformed content, yet \<open>loadData\<close> accepts it, drops the element and keeps the empty
  list of events; \<open>init\<close> resolves, the fallback events are not loaded and the dates stay
  unset.
\<close>

theorem timeline_init_keeps_undated_data:
  "timeline_init
      (Some (Fulfilled (JsonArray
         [Some \<lparr>event_id = ''event-1'', event_date = None, title = ''Conflict Begins'',
                 sources = SourceList [''BBC'']\<rparr>])))
      \<lparr>element_ids = [''timeline-container''], dom_listeners = [], slider = None\<rparr>
      \<lparr>timeline_container = 1, startDate = None, endDate = None, timeline_events = [],
        currentIndex = 0, isPlaying = False, playInterval = None, svg = False,
        eventElements = []\<rparr>
     = Resolves
         (\<lparr>timeline_container = 1, startDate = None, endDate = None,
            timeline_events = [], currentIndex = 0, isPlaying = False, playInterval = None,
            svg = True, eventElements = []\<rparr>,
          \<lparr>element_ids = [''timeline-container'', ''timeline-svg-container'',
              ''timeline-event-details'', ''timeline-event-title'', ''timeline-event-date'',
              ''timeline-event-description'', ''timeline-event-meta'', ''timeline-event-type'',
              ''timeline-event-sources''],
            dom_listeners = [(''window'', ''resize''), (''document'', ''keydown'')],
            slider = None\<rparr>)"
  by (simp add: timeline_init_def loadData_def process_events_def valid_date_def Let_def
        createTimelineStructure_def setupControls_def render_def updateEventDisplay_def
        setupEventListeners_def)

text \<open>
  \<open>init\<close> can also reject on data that \<open>loadData\<close> accepts: when the \<open>sources\<close> of the
  first event are not an array, \<open>render\<close> throws while it updates the display.
\<close>

lemma timeline_init_rejects_sources_without_map:
  "timeline_init
      (Some (Fulfilled (JsonArray
         [Some \<lparr>event_id = ''event-1'', event_date = Some 1696636800000,
                 title = ''Conflict Begins'', sources = NotAList\<rparr>])))
      \<lparr>element_ids = [''timeline-container''], dom_listeners = [], slider = None\<rparr>
      \<lparr>timeline_container = 1, startDate = None, endDate = None, timeline_events = [],
        currentIndex = 0, isPlaying = False, playInterval = None, svg = False,
        eventElements = []\<rparr>
     = Rejects (TypeError ''currentEvent.sources.map is not a function'')"
  by (simp add: timeline_init_def loadData_def process_events_def valid_date_def Let_def
        createTimelineStructure_def setupControls_def render_def updateEventDisplay_def)

lemma abs_diff_of_int_le:
  "(\<bar>rat_of_int a - rat_of_int b\<bar> \<le> numeral n) = (\<bar>a - b\<bar> \<le> numeral n)"
proof -
  have "\<bar>rat_of_int a - rat_of_int b\<bar> = rat_of_int \<bar>a - b\<bar>" by simp
  then show ?thesis by (simp only: of_int_le_numeral_iff)
qed

lemma at_most_daysDiff: "at_most (daysDiff D d) 7 = within_7_days D d"
  by (cases D; cases d)
     (simp_all add: daysDiff_def within_7_days_def pos_divide_le_eq abs_diff_of_int_le)

lemma filter_marker_opacity:
  "filter_marker locs D (k, mk) =
     (k, case date_of_marker locs k of
           None \<Rightarrow> mk
         | Some d \<Rightarrow> mk\<lparr>opacity := (if within_7_days D d then 1 else 3 / 10)\<rparr>)"
  by (simp add: filter_marker_def date_of_marker_def at_most_daysDiff split: option.splits)

lemma filterByDate_markers:
  "map fst (markers (filterByDate D m)) = map fst (markers m)"
  "i < length (markers m) \<Longrightarrow>
     opacity (snd (markers (filterByDate D m) ! i))
       = (case date_of_marker (locationData m) (fst (markers m ! i)) of
            None \<Rightarrow> opacity (snd (markers m ! i))
          | Some d \<Rightarrow> if within_7_days D d then 1 else 3 / 10)"
proof -
  have f: "\<And>e. fst (filter_marker (locationData m) D e) = fst e"
    by (simp add: filter_marker_def split: prod.splits option.splits)
  show "map fst (markers (filterByDate D m)) = map fst (markers m)"
    by (simp add: filterByDate_def f)
  assume i: "i < length (markers m)"
  obtain k mk where e: "markers m ! i = (k, mk)" by (cases "markers m ! i")
  show "opacity (snd (markers (filterByDate D m) ! i))
       = (case date_of_marker (locationData m) (fst (markers m ! i)) of
            None \<Rightarrow> opacity (snd (markers m ! i))
          | Some d \<Rightarrow> if within_7_days D d then 1 else 3 / 10)"
    using i e by (simp add: filterByDate_def filter_marker_opacity split: option.splits)
qed

lemma Map_get_Map_set: "Map_get (Map_set k v kvs) k = Some v"
  by (induction kvs) (auto simp: Map_get_def)

lemma setup_routes:
  assumes "listeners st ev = []"
  shows "ev = ''timeline:dateChanged'' \<Longrightarrow>
           events (setupModuleCommunication nt df st) ev = Some [Callback 0 [Effect timeline_to_map]]"
    and "ev = ''map:locationSelected'' \<Longrightarrow>
           events (setupModuleCommunication nt df st) ev = Some [Callback 1 [Effect map_to_satellite]]"
    and "world (setupModuleCommunication nt df st) = world st"
  using assms
  by (auto simp: setupModuleCommunication_def on_def listeners_def Let_def split: option.splits)

text \<open>
  C7, as amended.  After \<open>setupModuleCommunication\<close> on a bus without callbacks for
  \<open>timeline:dateChanged\<close>, with a map module in the registry, emitting the event with
  a date \<open>D\<close> leaves the map module with the same locations and the same markers in the
  same order; a marker whose location carries a date has opacity 1 when that date lies
  within seven days of \<open>D\<close> (seven days exactly included) and opacity 0.3 otherwise
  (also when one of the two dates is invalid); a marker whose location carries no date
  keeps the opacity it had.
\<close>

theorem dateChanged_sets_dated_markers:
  assumes "listeners st ''timeline:dateChanged'' = []"
    and "Map_get (modules (world st)) ''map'' = Some (MapModule m)"
  shows "\<exists>m'. Map_get (modules (world (snd (emit ''timeline:dateChanged'' [DateArg D]
                      (setupModuleCommunication nt df st))))) ''map'' = Some (MapModule m')
           \<and> locationData m' = locationData m
           \<and> map fst (markers m') = map fst (markers m)
           \<and> (\<forall>i < length (markers m).
                 opacity (snd (markers m' ! i))
                   = (case date_of_marker (locationData m) (fst (markers m ! i)) of
                        None \<Rightarrow> opacity (snd (markers m ! i))
                      | Some d \<Rightarrow> if within_7_days D d then 1 else 3 / 10))"
proof -
  let ?st = "setupModuleCommunication nt df st"
  have "world (snd (emit ''timeline:dateChanged'' [DateArg D] ?st))
          = snd (timeline_to_map [DateArg D] (world st))"
    using emit_single_effect [OF setup_routes(1) [OF assms(1) refl, of nt df], of "[DateArg D]"]
      setup_routes(3) [OF assms(1), of nt df] by simp
  also have "\<dots> = (world st)\<lparr>modules := Map_set ''map'' (MapModule (filterByDate D m))
                                    (modules (world st))\<rparr>"
    using assms(2) by (simp add: timeline_to_map_def first_arg_def)
  finally have "Map_get (modules (world (snd (emit ''timeline:dateChanged'' [DateArg D] ?st)))) ''map''
          = Some (MapModule (filterByDate D m))"
    by (simp add: Map_get_Map_set)
  moreover have "locationData (filterByDate D m) = locationData m"
    by (simp add: filterByDate_def)
  ultimately show ?thesis
    using filterByDate_markers [where D = D and m = m] by blast
qed

theorem dateChanged_sets_dated_markers_witness:
  "\<exists>m'. Map_get (modules (world (snd (emit ''timeline:dateChanged'' [DateArg (Some 1696636800000)]
        (setupModuleCommunication (Callback 2 []) (Callback 3 [])
          (new_EventBus \<lparr>modules = [(''map'', MapModule
              \<lparr>map_container = 1, leaflet_map = True,
               locationData = [\<lparr>loc_id = ''a'', loc_name = ''A'', loc_date = Some (Some 1697241600000),
                                 coordinates = None\<rparr>,
                               \<lparr>loc_id = ''b'', loc_name = ''B'', loc_date = Some (Some 1697241600001),
                                 coordinates = None\<rparr>,
                               \<lparr>loc_id = ''c'', loc_name = ''C'', loc_date = None,
                                 coordinates = None\<rparr>],
               markers = [(''a'', \<lparr>opacity = 1\<rparr>), (''b'', \<lparr>opacity = 1\<rparr>),
                          (''c'', \<lparr>opacity = 1\<rparr>)]\<rparr>)],
            journal = [], steps = []\<rparr>)))))) ''map'' = Some (MapModule m')
      \<and> opacity (snd (markers m' ! 0)) = 1
      \<and> opacity (snd (markers m' ! 1)) = 3 / 10
      \<and> opacity (snd (markers m' ! 2)) = 1"
proof -
  let ?m = "\<lparr>map_container = 1, leaflet_map = True,
               locationData = [\<lparr>loc_id = ''a'', loc_name = ''A'', loc_date = Some (Some 1697241600000),
                                 coordinates = None\<rparr>,
                               \<lparr>loc_id = ''b'', loc_name = ''B'', loc_date = Some (Some 1697241600001),
                                 coordinates = None\<rparr>,
                               \<lparr>loc_id = ''c'', loc_name = ''C'', loc_date = None,
                                 coordinates = None\<rparr>],
               markers = [(''a'', \<lparr>opacity = 1\<rparr>), (''b'', \<lparr>opacity = 1\<rparr>),
                          (''c'', \<lparr>opacity = (1::rat)\<rparr>)]\<rparr>"
  let ?st = "new_EventBus \<lparr>modules = [(''map'', MapModule ?m)], journal = [], steps = []\<rparr>
               :: (arg, app) heap"
  have h1: "listeners ?st ''timeline:dateChanged'' = []"
    by (simp add: listeners_def new_EventBus_def)
  have h2: "Map_get (modules (world ?st)) ''map'' = Some (MapModule ?m)"
    by (simp add: Map_get_def new_EventBus_def)
  from dateChanged_sets_dated_markers
    [OF h1 h2, of "Some 1696636800000" "Callback 2 []" "Callback 3 []"]
  obtain m' where m': "Map_get (modules (world (snd (emit ''timeline:dateChanged''
        [DateArg (Some 1696636800000)]
        (setupModuleCommunication (Callback 2 []) (Callback 3 []) ?st))))) ''map''
        = Some (MapModule m')"
    and op: "\<forall>i < length (markers ?m).
                 opacity (snd (markers m' ! i))
                   = (case date_of_marker (locationData ?m) (fst (markers ?m ! i)) of
                        None \<Rightarrow> opacity (snd (markers ?m ! i))
                      | Some d \<Rightarrow> if within_7_days (Some 1696636800000) d then 1 else 3 / 10)"
    by (elim exE conjE)
  from op [rule_format, of 0] have o0: "opacity (snd (markers m' ! 0)) = 1"
    by (simp add: date_of_marker_def within_7_days_def)
  from op [rule_format, of 1] have o1: "opacity (snd (markers m' ! 1)) = 3 / 10"
    by (simp add: date_of_marker_def within_7_days_def)
  from op [rule_format, of 2] have o2: "opacity (snd (markers m' ! 2)) = 1"
    by (simp add: date_of_marker_def within_7_days_def)
  from m' o0 o1 o2 show ?thesis by (intro exI [of _ m'] conjI)
qed

lemma fallback_map_eq:
  "fallback_map =
     \<lparr>map_container = 1, leaflet_map = True,
      locationData = locationData (map_loadFallbackData \<lparr>map_container = 1, leaflet_map = True, locationData = [], markers = []\<rparr>),
      markers = [(''gaza-city'', \<lparr>opacity = 1\<rparr>), (''rafah'', \<lparr>opacity = 1\<rparr>),
                 (''khan-younis'', \<lparr>opacity = 1\<rparr>), (''al-shifa-hospital'', \<lparr>opacity = 1\<rparr>)]\<rparr>"
  by (simp add: fallback_map_def addLocationMarkers_def map_loadFallbackData_def addMarker_def)

text \<open>
  C7, the claim as stated fails: the four fallback locations carry no date, so none lies
  within seven days of the emitted date, and after the emit their markers still have
  opacity 1 instead of the dimmed opacity.
\<close>

theorem dateChanged_leaves_undated_markers:
  "map loc_date (locationData fallback_map) = [None, None, None, None]
   \<and> world (snd (emit ''timeline:dateChanged'' [DateArg (Some 1696636800000)]
        (setupModuleCommunication (Callback 2 []) (Callback 3 [])
          (new_EventBus \<lparr>modules = [(''map'', MapModule fallback_map)], journal = [], steps = []\<rparr>))))
     = \<lparr>modules = [(''map'', MapModule (fallback_map\<lparr>markers :=
            [(''gaza-city'', \<lparr>opacity = 1\<rparr>), (''rafah'', \<lparr>opacity = 1\<rparr>),
             (''khan-younis'', \<lparr>opacity = 1\<rparr>), (''al-shifa-hospital'', \<lparr>opacity = 1\<rparr>)]\<rparr>))],
        journal = [], steps = []\<rparr>"
  by (simp add: fallback_map_eq map_loadFallbackData_def setupModuleCommunication_def on_def
        new_EventBus_def emit_def forEach.simps guarded_def timeline_to_map_def Map_get_def
        first_arg_def filterByDate_def filter_marker_def)



lemma findLocationByCoordinates_first: "findLocationByCoordinates c table = first_region c table"
  by (induction table) (auto simp: first_region_def)

lemma first_region_has: "first_region c table = Some k \<Longrightarrow> map_of table k \<noteq> None"
  by (induction table) (auto simp: first_region_def split: if_splits)

lemma first_region_None:
  "first_region c table = None \<longleftrightarrow> (\<forall>entry \<in> set table. \<not> inside c (info_bounds (snd entry)))"
  by (auto simp: first_region_def find_None_iff)

lemma first_region_Some:
  assumes "first_region c table = Some k"
  shows "\<exists>info. (k, info) \<in> set table \<and> inside c (info_bounds info)"
proof -
  from assms obtain entry where f: "find (\<lambda>entry. inside c (info_bounds (snd entry))) table = Some entry"
    and k: "k = fst entry" by (auto simp: first_region_def)
  from f have "entry \<in> set table" and "inside c (info_bounds (snd entry))"
    by (auto simp: find_Some_iff)
  with k show ?thesis by (cases entry) auto
qed

lemma showLocation_current:
  assumes "coordinates loc = Some c"
  shows "showLocation loc s =
           (case first_region c (locations s) of
              None \<Rightarrow> s
            | Some k \<Rightarrow> if k = [] then s else s\<lparr>currentLocation := k, timelapseIndex := 0\<rparr>)"
  using assms first_region_has [of c "locations s"]
  by (auto simp: showLocation_def findLocationByCoordinates_first changeLocation_def
        split: option.splits)

text \<open>
  What holds for every location table: after \<open>setupModuleCommunication\<close> on a bus
  without callbacks for \<open>map:locationSelected\<close>, with a satellite module in the
  registry, emitting the event with a location that carries coordinates switches the
  satellite module to the first region, in the order of its table, whose bounds contain
  the coordinates (and resets the timelapse index); when no region contains them the
  satellite module is unchanged.
\<close>

lemma locationSelected_switches_to_first_region:
  assumes "listeners st ''map:locationSelected'' = []"
    and "Map_get (modules (world st)) ''satellite'' = Some (SatelliteModule s)"
    and "coordinates loc = Some c"
  shows "Map_get (modules (world (snd (emit ''map:locationSelected'' [LocationArg loc]
                      (setupModuleCommunication nt df st))))) ''satellite''
           = Some (SatelliteModule
               (case first_region c (locations s) of
                  None \<Rightarrow> s
                | Some k \<Rightarrow> if k = [] then s else s\<lparr>currentLocation := k, timelapseIndex := 0\<rparr>))"
proof -
  let ?st = "setupModuleCommunication nt df st"
  have "world (snd (emit ''map:locationSelected'' [LocationArg loc] ?st))
          = snd (map_to_satellite [LocationArg loc] (world st))"
    using emit_single_effect [OF setup_routes(2) [OF assms(1) refl, of nt df], of "[LocationArg loc]"]
      setup_routes(3) [OF assms(1), of nt df] by simp
  also have "\<dots> = (world st)\<lparr>modules := Map_set ''satellite''
                        (SatelliteModule (showLocation loc s)) (modules (world st))\<rparr>"
    using assms(2) by (simp add: map_to_satellite_def first_arg_def)
  finally show ?thesis
    by (simp add: Map_get_Map_set showLocation_current [OF assms(3)])
qed

text \<open>
  With the table that the constructor builds, the first match is \<open>gaza-strip\<close> for every
  coordinate pair inside any of the four regions, because \<open>gaza-strip\<close> is inserted first
  and its bounds enclose those of the three other regions: \<open>showLocation\<close> never selects
  \<open>gaza-city\<close>, \<open>rafah\<close> or \<open>khan-younis\<close>.
\<close>

lemma findLocationByCoordinates_predefined:
  "findLocationByCoordinates (lat, lng) predefined_locations
     = (if 3122 / 100 \<le> lat \<and> lat \<le> 3159 / 100 \<and> 3422 / 100 \<le> lng \<and> lng \<le> 3457 / 100
        then Some ''gaza-strip'' else None)"
  by (auto simp: predefined_locations_def inside_def)

lemma showLocation_predefined:
  assumes "locations s = predefined_locations" and "coordinates loc = Some (lat, lng)"
  shows "showLocation loc s
     = (if 3122 / 100 \<le> lat \<and> lat \<le> 3159 / 100 \<and> 3422 / 100 \<le> lng \<and> lng \<le> 3457 / 100
        then s\<lparr>currentLocation := ''gaza-strip'', timelapseIndex := 0\<rparr> else s)"
proof -
  have "map_of predefined_locations ''gaza-strip'' \<noteq> None"
    by (simp add: predefined_locations_def)
  with assms show ?thesis
    by (simp add: showLocation_def findLocationByCoordinates_predefined changeLocation_def)
qed

text \<open>
  C8.  The claim: emitting \<open>map:locationSelected\<close> with coordinates switches the satellite
  module to the named region whose bounds contain them.  The coordinates of the map's
  Gaza City location lie inside the bounds of the named region \<open>gaza-city\<close>, but the
  satellite module, showing \<open>rafah\<close> before, switches to \<open>gaza-strip\<close>, the first entry of
  the table, whose bounds enclose those of the three other regions.
\<close>

theorem locationSelected_in_gaza_city_shows_gaza_strip:
  "inside (315017 / 10000, 344668 / 10000)
      \<lparr>north = 3152 / 100, south = 3148 / 100, east = 3448 / 100, west = 3444 / 100\<rparr>
   \<and> map_of predefined_locations ''gaza-city''
       = Some \<lparr>info_name = ''Gaza City'', info_bounds =
           \<lparr>north = 3152 / 100, south = 3148 / 100, east = 3448 / 100, west = 3444 / 100\<rparr>\<rparr>
   \<and> world (snd (emit ''map:locationSelected''
       [LocationArg \<lparr>loc_id = ''gaza-city'', loc_name = ''Gaza City'', loc_date = None,
                     coordinates = Some (315017 / 10000, 344668 / 10000)\<rparr>]
       (setupModuleCommunication (Callback 2 []) (Callback 3 [])
          (new_EventBus \<lparr>modules = [(''satellite'', SatelliteModule \<lparr>satellite_container = 1, currentLocation = ''rafah'',
        locations = predefined_locations, timelapseIndex = 3, currentImages = 0,
        timelapseInterval = 1000, sat_isPlaying = False, sat_playInterval = None\<rparr>)],
            journal = [], steps = []\<rparr>))))
     = \<lparr>modules = [(''satellite'', SatelliteModule
           (\<lparr>satellite_container = 1, currentLocation = ''rafah'',
        locations = predefined_locations, timelapseIndex = 3, currentImages = 0,
        timelapseInterval = 1000, sat_isPlaying = False, sat_playInterval = None\<rparr>\<lparr>currentLocation := ''gaza-strip'', timelapseIndex := 0\<rparr>))],
        journal = [], steps = []\<rparr>"
  by (simp add: inside_def predefined_locations_def setupModuleCommunication_def on_def
        new_EventBus_def emit_def forEach.simps guarded_def map_to_satellite_def Map_get_def
        first_arg_def showLocation_def changeLocation_def)


text \<open>
  What holds for the timers of the timeline and satellite modules: while the module keeps
  track of its timer, playing and pausing keep it so, \<open>destroy\<close> leaves no timer active,
  and a second \<open>destroy\<close> changes nothing.  A second \<open>destroy\<close> of the map module changes
  nothing either.
\<close>

lemma timeline_tracks_play:
  "timeline_tracks t ts \<Longrightarrow> timeline_tracks (fst (play t ts)) (snd (play t ts))"
  by (auto simp: timeline_tracks_def play_def setInterval_def split: option.splits)

lemma timeline_tracks_pause:
  "timeline_tracks t ts \<Longrightarrow> timeline_tracks (fst (pause t ts)) (snd (pause t ts))"
  by (auto simp: timeline_tracks_def pause_def clearInterval_def split: option.splits)

lemma timeline_destroy_clears:
  assumes "timeline_tracks t ts"
  shows "active (snd (timeline_destroy t ts)) = []"
    and "timeline_tracks (fst (timeline_destroy t ts)) (snd (timeline_destroy t ts))"
    and "timeline_destroy (fst (timeline_destroy t ts)) (snd (timeline_destroy t ts))
           = timeline_destroy t ts"
  using assms
  by (auto simp: timeline_tracks_def timeline_destroy_def pause_def clearInterval_def
        split: option.splits)

lemma satellite_tracks_play:
  "satellite_tracks s ts \<Longrightarrow>
     satellite_tracks (fst (playTimelapse s ts)) (snd (playTimelapse s ts))"
  by (auto simp: satellite_tracks_def playTimelapse_def setInterval_def split: option.splits)

lemma satellite_destroy_clears:
  assumes "satellite_tracks s ts"
  shows "active (snd (satellite_destroy s ts)) = []"
    and "satellite_tracks (fst (satellite_destroy s ts)) (snd (satellite_destroy s ts))"
    and "satellite_destroy (fst (satellite_destroy s ts)) (snd (satellite_destroy s ts))
           = satellite_destroy s ts"
  using assms
  by (auto simp: satellite_tracks_def satellite_destroy_def pauseTimelapse_def clearInterval_def
        split: option.splits)

lemma map_destroy_twice: "map_destroy (map_destroy m) = map_destroy m"
  by (simp add: map_destroy_def)

text \<open>
  C9.  The claim: the first \<open>destroy\<close> of every module clears any previously active
  timer.  \<open>startAutoUpdate\<close> of the news module starts a new interval without looking
  at the handle it already holds: after \<open>init\<close> has started timer 1, a \<open>resume\<close> that is
  not preceded by a \<open>pause\<close> starts timer 2 and overwrites the handle, and \<open>destroy\<close>
  then clears timer 2 only.  Timer 1 stays active.
\<close>

theorem news_destroy_leaves_first_timer:
  "(case startAutoUpdate \<lparr>news_container = 1, updateInterval = 300000, updateTimer = None\<rparr>
           \<lparr>issued = 0, active = []\<rparr> of
      (n1, ts1) \<Rightarrow>
        (case news_resume n1 ts1 of
           (n2, ts2) \<Rightarrow>
             (case news_destroy n2 ts2 of
                (n3, ts3) \<Rightarrow> (active ts1, active ts2, updateTimer n2, active ts3, updateTimer n3))))
     = ([1], [1, 2], Some 2, [1], None)"
  by (simp add: startAutoUpdate_def news_resume_def news_destroy_def stopAutoUpdate_def
        setInterval_def clearInterval_def)


end
